theory Spec2Isabelle
  imports Main "HOL-Library.Word"
begin

section \<open>JavaScript values\<close>

text \<open>
  The values that cross the bridge are JSON documents and the fields of the device's
  status objects.  \<open>JNum\<close> carries the integers the device reports (percentages, seconds,
  counters, identifiers), in the range where JavaScript writes an integer in plain decimal
  digits; the decimal texts that the source derives from them with \<open>toFixed(1)\<close> are
  strings already when they enter a document.  An object is the list of its own properties
  in insertion order, each key once, which is the order \<open>JSON.stringify\<close> writes them in.
  Strings are byte strings: the texts of this program are ASCII.
\<close>

datatype jsval =
    JUndefined
  | JNull
  | JBool bool
  | JNum int
  | JStr string
  | JArr "jsval list"
  | JObj "(string \<times> jsval) list"

text \<open>Truthiness, as \<open>if (x)\<close> and \<open>x && y\<close> test it.\<close>

fun truthy :: "jsval \<Rightarrow> bool" where
  "truthy JUndefined = False"
| "truthy JNull = False"
| "truthy (JBool b) = b"
| "truthy (JNum n) = (n \<noteq> 0)"
| "truthy (JStr s) = (s \<noteq> [])"
| "truthy (JArr xs) = True"
| "truthy (JObj kvs) = True"

text \<open>
  \<open>Array.prototype.includes\<close> compares with SameValueZero: primitives are equal when they
  have the same type and the same value, with no coercion between a number and its decimal
  text; two objects or arrays are equal only when they are the same object, which a value
  parsed from a message never is with a value held in the configuration.
\<close>

fun same_value_zero :: "jsval \<Rightarrow> jsval \<Rightarrow> bool" where
  "same_value_zero JUndefined b = (b = JUndefined)"
| "same_value_zero JNull b = (b = JNull)"
| "same_value_zero (JBool a) b = (b = JBool a)"
| "same_value_zero (JNum a) b = (b = JNum a)"
| "same_value_zero (JStr a) b = (b = JStr a)"
| "same_value_zero (JArr xs) b = False"
| "same_value_zero (JObj kvs) b = False"

definition array_includes :: "jsval list \<Rightarrow> jsval \<Rightarrow> bool" where
  "array_includes xs v = list_ex (\<lambda>x. same_value_zero x v) xs"

text \<open>Property read \<open>o.k\<close>: \<open>undefined\<close> when the object has no such property, and on
  every value that is not an object (none of the keys read below is a member of a
  prototype).\<close>

fun get_prop :: "jsval \<Rightarrow> string \<Rightarrow> jsval" where
  "get_prop (JObj kvs) k = (case map_of kvs k of None \<Rightarrow> JUndefined | Some v \<Rightarrow> v)"
| "get_prop v k = JUndefined"

text \<open>Property write \<open>o.k = v\<close> on an object literal: an existing key keeps its place, a
  new key goes last.\<close>

fun set_prop :: "string \<Rightarrow> jsval \<Rightarrow> (string \<times> jsval) list \<Rightarrow> (string \<times> jsval) list" where
  "set_prop k v [] = [(k, v)]"
| "set_prop k v ((k', v') # kvs) =
     (if k = k' then (k, v) # kvs else (k', v') # set_prop k v kvs)"

subsection \<open>\<open>JSON.stringify\<close>\<close>

definition digit_char :: "nat \<Rightarrow> char" where
  "digit_char n = ''0123456789abcdef'' ! n"

function show_nat :: "nat \<Rightarrow> string" where
  "show_nat n =
     (if n < 10 then [digit_char n]
      else show_nat (n div 10) @ [digit_char (n mod 10)])"
  by pat_completeness auto
termination
  by (relation "measure id") auto

declare show_nat.simps [simp del]

definition show_int :: "int \<Rightarrow> string" where
  "show_int i = (if i < 0 then CHR ''-'' # show_nat (nat (- i)) else show_nat (nat i))"

definition escape_char :: "char \<Rightarrow> string" where
  "escape_char c =
     (if c = CHR 0x22 then [CHR 0x5C, CHR 0x22]
      else if c = CHR 0x5C then [CHR 0x5C, CHR 0x5C]
      else if c = CHR 0x08 then [CHR 0x5C, CHR ''b'']
      else if c = CHR 0x0C then [CHR 0x5C, CHR ''f'']
      else if c = CHR 0x0A then [CHR 0x5C, CHR ''n'']
      else if c = CHR 0x0D then [CHR 0x5C, CHR ''r'']
      else if c = CHR 0x09 then [CHR 0x5C, CHR ''t'']
      else if (of_char c :: nat) < 32
        then [CHR 0x5C, CHR ''u'', CHR ''0'', CHR ''0'',
              digit_char ((of_char c :: nat) div 16), digit_char ((of_char c :: nat) mod 16)]
      else [c])"

definition quote :: "string \<Rightarrow> string" where
  "quote s = CHR 0x22 # concat (map escape_char s) @ [CHR 0x22]"

fun join_comma :: "string list \<Rightarrow> string" where
  "join_comma [] = []"
| "join_comma [x] = x"
| "join_comma (x # y # ys) = x @ CHR '','' # join_comma (y # ys)"

text \<open>
  \<open>JSON.stringify v\<close>; \<open>None\<close> is the result \<open>undefined\<close>.  A property whose value is
  \<open>undefined\<close> is left out of an object, an \<open>undefined\<close> array element is written
  \<open>null\<close>, and properties are written in the order the object holds them.
\<close>

fun JSON_stringify :: "jsval \<Rightarrow> string option" where
  "JSON_stringify JUndefined = None"
| "JSON_stringify JNull = Some ''null''"
| "JSON_stringify (JBool b) = Some (if b then ''true'' else ''false'')"
| "JSON_stringify (JNum n) = Some (show_int n)"
| "JSON_stringify (JStr s) = Some (quote s)"
| "JSON_stringify (JArr xs) =
     Some (CHR ''['' # join_comma
        (map (\<lambda>x. case JSON_stringify x of None \<Rightarrow> ''null'' | Some t \<Rightarrow> t) xs) @ '']'')"
| "JSON_stringify (JObj kvs) =
     Some (CHR ''{'' # join_comma
        (concat (map (\<lambda>(k, v). case JSON_stringify v of None \<Rightarrow> []
                                  | Some t \<Rightarrow> [quote k @ CHR '':'' # t]) kvs)) @ ''}'')"

section \<open>The tables of \<open>MqttClient.js\<close>\<close>

definition MQTT_COMMANDS_START :: string where "MQTT_COMMANDS_START = ''start''"
definition MQTT_COMMANDS_RETURN_TO_BASE :: string where "MQTT_COMMANDS_RETURN_TO_BASE = ''return_to_base''"
definition MQTT_COMMANDS_STOP :: string where "MQTT_COMMANDS_STOP = ''stop''"
definition MQTT_COMMANDS_CLEAN_SPOT :: string where "MQTT_COMMANDS_CLEAN_SPOT = ''clean_spot''"
definition MQTT_COMMANDS_LOCATE :: string where "MQTT_COMMANDS_LOCATE = ''locate''"
definition MQTT_COMMANDS_PAUSE :: string where "MQTT_COMMANDS_PAUSE = ''pause''"

definition CUSTOM_COMMANDS_GO_TO :: string where "CUSTOM_COMMANDS_GO_TO = ''go_to''"
definition CUSTOM_COMMANDS_ZONED_CLEANUP :: string where "CUSTOM_COMMANDS_ZONED_CLEANUP = ''zoned_cleanup''"

definition FAN_SPEEDS :: "(string \<times> int) list" where
  "FAN_SPEEDS = [(''min'', 38), (''medium'', 60), (''high'', 75), (''max'', 100), (''mop'', 105)]"

definition HA_STATES_CLEANING :: string where "HA_STATES_CLEANING = ''cleaning''"
definition HA_STATES_PAUSED :: string where "HA_STATES_PAUSED = ''paused''"
definition HA_STATES_IDLE :: string where "HA_STATES_IDLE = ''idle''"
definition HA_STATES_RETURNING :: string where "HA_STATES_RETURNING = ''returning''"
definition HA_STATES_DOCKED :: string where "HA_STATES_DOCKED = ''docked''"
definition HA_STATES_ERROR :: string where "HA_STATES_ERROR = ''error''"
definition HA_STATES_ZONE_CLEANUP :: string where "HA_STATES_ZONE_CLEANUP = ''cleaning''"

definition HA_STATE_MAPPINGS :: "(string \<times> string) list" where
  "HA_STATE_MAPPINGS =
    [(''CHARGER_DISCONNECTED'', HA_STATES_IDLE),
     (''IDLE'', HA_STATES_IDLE),
     (''CLEANING'', HA_STATES_CLEANING),
     (''MANUAL_MODE'', HA_STATES_CLEANING),
     (''SPOT_CLEANING'', HA_STATES_CLEANING),
     (''GOING_TO_TARGET'', HA_STATES_CLEANING),
     (''ZONED_CLEANING'', HA_STATES_ZONE_CLEANUP),
     (''RETURNING_HOME'', HA_STATES_RETURNING),
     (''DOCKING'', HA_STATES_RETURNING),
     (''CHARGING'', HA_STATES_DOCKED),
     (''CHARGING_PROBLEM'', HA_STATES_ERROR),
     (''ERROR'', HA_STATES_ERROR),
     (''PAUSED'', HA_STATES_PAUSED)]"

text \<open>The lookup \<open>HA_STATE_MAPPINGS[code]\<close> (the spec's \<open>mapState\<close>); \<open>None\<close> is
  \<open>undefined\<close>, the result for a code the table has no entry for.  (For a code that
  names a member of \<open>Object.prototype\<close> the source reads that member; the native states
  are not such names.)\<close>

definition HA_STATE_MAPPINGS_at :: "string \<Rightarrow> string option" where
  "HA_STATE_MAPPINGS_at code = map_of HA_STATE_MAPPINGS code"

text \<open>The six standardized states of the spec.\<close>

definition standardized_states :: "string list" where
  "standardized_states =
    [HA_STATES_CLEANING, HA_STATES_PAUSED, HA_STATES_IDLE, HA_STATES_RETURNING,
     HA_STATES_DOCKED, HA_STATES_ERROR]"

section \<open>Collaborators\<close>

text \<open>
  What the source calls but does not contain: \<open>JSON.parse\<close>, the floating-point
  expressions that end in \<open>toFixed(1)\<close>, the error-description table of the device
  module, the file read of the CA certificate, the flags of the handle that
  \<open>mqtt.connect\<close> returns, and the names the device model reports.  Each is an argument
  of the model, so every theorem below holds whatever these functions compute.
\<close>

text \<open>The connection handle of the MQTT library, as far as the source reads it: the two
  flags it compares with \<open>=== true\<close> and \<open>=== false\<close>.\<close>

record client_handle =
  connected :: jsval
  reconnecting :: jsval

record externals =
  JSON_parse :: "string \<Rightarrow> jsval option"  \<comment> \<open>\<open>None\<close>: \<open>JSON.parse\<close> throws\<close>
  toFixed1_hours :: "int \<Rightarrow> string"  \<comment> \<open>\<open>(x / 60 / 60).toFixed(1)\<close>\<close>
  toFixed1_area :: "int \<Rightarrow> string"  \<comment> \<open>\<open>(x / 1000000).toFixed(1)\<close>\<close>
  toFixed1_remaining :: "int \<Rightarrow> int \<Rightarrow> string"
    \<comment> \<open>\<open>(Math.max(0, limit - (x / 60 / 60))).toFixed(1)\<close>, \<open>limit\<close> first\<close>
  GET_ERROR_CODE_DESCRIPTION :: "jsval \<Rightarrow> jsval"
  fs_readFileSync :: "string \<Rightarrow> string option"  \<comment> \<open>\<open>None\<close>: the read throws\<close>
  mqtt_connect :: client_handle  \<comment> \<open>the handle \<open>mqtt.connect\<close> returns\<close>
  getManufacturerName :: string
  getModelName :: string

text \<open>
  The values the device API resolves its promises with, and the status object of a
  \<open>miio.status\<close> event, with the fields the source reads.  The fields the source only
  computes with are integers; the fields it compares with \<open>===\<close> or \<open>!==\<close> are JavaScript
  values, so that \<open>undefined\<close> and a value of another type are inputs of the model.  The
  native state is the property key that \<open>HA_STATE_MAPPINGS[...]\<close> looks up.  An answer of
  another shape, on which a handler would throw a \<open>TypeError\<close>, is not an input.
\<close>

record status_data =
  battery :: jsval
  state :: string
  error_code :: jsval
  fan_power :: jsval
  in_cleaning :: jsval

record consumable =
  main_brush_work_time :: int
  side_brush_work_time :: int
  filter_work_time :: int
  sensor_dirty_time :: int

text \<open>\<open>res2\<close> of \<open>getCleanSummary\<close>: the array \<open>[res2[0], res2[1], res2[2], res2[3]]\<close>.\<close>

record clean_summary =
  summary_time :: int
  summary_area :: int
  summary_count :: int
  summary_last_runs :: "int list"

text \<open>\<open>data[0]\<close> of \<open>getCleanRecord\<close>: the array \<open>[data[0][0], ..., data[0][5]]\<close>.\<close>

record clean_record =
  record_start :: int
  record_end :: int
  record_duration :: int
  record_area :: int
  record_error :: int
  record_finished :: int

record zone =
  zone_id :: jsval
  zone_name :: jsval

section \<open>The client object and its event loop\<close>

text \<open>The values the constructor reads from the \<open>mqtt\<close> section of the configuration,
  after its defaults.\<close>

record mqtt_config =
  brokerURL :: string
  cfg_identifier :: string
  topicPrefix :: string
  autoconfPrefix :: string
  attributesUpdateInterval :: nat
  provideMapData :: bool
  caPath :: string
  qos :: nat

datatype vacuum_call =
    startCleaning
  | stopCleaning
  | pauseCleaning
  | spotClean
  | findRobot
  | driveHome
  | resumeCleaningZone
  | goTo jsval jsval
  | startCleaningZonesById "jsval list"
  | setFanSpeed jsval
  | getCurrentStatus
  | getConsumableStatus
  | getCleanSummary
  | getCleanRecord int

text \<open>What the client does to the outside, in the order it does it.  The payload of a
  publish is the result of \<open>JSON.stringify\<close>; \<open>Subscribe\<close> and \<open>Publish\<close> carry the
  \<open>qos\<close> option, \<open>Publish\<close> the \<open>retain\<close> option before it.\<close>

datatype effect =
    Vacuum vacuum_call
  | Publish string "string option" bool nat
  | Subscribe "string list" nat
  | Mqtt_connect string "string option"
  | Logger_error
  | Logger_info string

text \<open>A promise whose handlers are registered and which has not settled: the handlers,
  with what their closure holds.\<close>

datatype continuation =
    then_getConsumableStatus
  | then_getCleanSummary consumable
  | then_getCleanRecord
  | then_getCurrentStatus
  | then_stopCleaning
  | catch_startCleaningZonesById
  | subscribe_callback

text \<open>How a promise settles.  The device API fulfils each promise with the value of its
  own kind; on a value of another kind the handlers below leave the state as it is.\<close>

datatype settlement =
    Rejected
  | Fulfilled
  | Fulfilled_status status_data
  | Fulfilled_consumable consumable
  | Fulfilled_summary clean_summary
  | Fulfilled_record clean_record

text \<open>
  The fields of \<open>this\<close> first; then the event loop (the timers that are set and have not
  fired, the promises that have not settled), what the collaborators hold
  (\<open>vacuum.getZoneCleaningStatus()\<close>, \<open>configuration.getZones().values()\<close>,
  \<open>configuration.get("spots")\<close>, \<open>map.parsedData\<close>), and the effects so far.
\<close>

record bridge =
  config :: mqtt_config
  client :: "client_handle option"
  last_ha_state :: "string option"
  last_state :: string
  last_attributes :: jsval
  last_run_stats :: jsval
  attributesUpdateTimeout :: "nat option"
  loop_timers :: "nat list"
  loop_next_timer :: nat
  loop_pending :: "(nat \<times> continuation) list"
  loop_next_promise :: nat
  vacuum_zoneCleaningStatus :: jsval
  configuration_zones :: "zone list"
  configuration_spots :: "jsval list"
  map_parsedData :: jsval
  trace :: "effect list"

definition topics_command :: "mqtt_config \<Rightarrow> string" where
  "topics_command c = topicPrefix c @ ''/'' @ cfg_identifier c @ ''/command''"

definition topics_set_fan_speed :: "mqtt_config \<Rightarrow> string" where
  "topics_set_fan_speed c = topicPrefix c @ ''/'' @ cfg_identifier c @ ''/set_fan_speed''"

definition topics_send_command :: "mqtt_config \<Rightarrow> string" where
  "topics_send_command c = topicPrefix c @ ''/'' @ cfg_identifier c @ ''/custom_command''"

definition topics_state :: "mqtt_config \<Rightarrow> string" where
  "topics_state c = topicPrefix c @ ''/'' @ cfg_identifier c @ ''/state''"

definition topics_map_data :: "mqtt_config \<Rightarrow> string" where
  "topics_map_data c = topicPrefix c @ ''/'' @ cfg_identifier c @ ''/map_data''"

definition topics_attributes :: "mqtt_config \<Rightarrow> string" where
  "topics_attributes c = topicPrefix c @ ''/'' @ cfg_identifier c @ ''/attributes''"

definition topics_homeassistant_autoconf_vacuum :: "mqtt_config \<Rightarrow> string" where
  "topics_homeassistant_autoconf_vacuum c =
     autoconfPrefix c @ ''/vacuum/'' @ topicPrefix c @ ''_'' @ cfg_identifier c @ ''/config''"

definition autoconf_payloads_vacuum :: "externals \<Rightarrow> mqtt_config \<Rightarrow> jsval" where
  "autoconf_payloads_vacuum ext c = JObj
    [(''name'', JStr (cfg_identifier c)),
     (''unique_id'', JStr (cfg_identifier c)),
     (''device'', JObj
        [(''manufacturer'', JStr (getManufacturerName ext)),
         (''model'', JStr (getModelName ext)),
         (''name'', JStr (cfg_identifier c)),
         (''identifiers'', JArr [JStr (cfg_identifier c)])]),
     (''schema'', JStr ''state''),
     (''supported_features'', JArr (map JStr
        [''start'', ''pause'', ''stop'', ''return_home'', ''battery'', ''status'', ''locate'',
         ''clean_spot'', ''fan_speed'', ''send_command''])),
     (''command_topic'', JStr (topics_command c)),
     (''state_topic'', JStr (topics_state c)),
     (''set_fan_speed_topic'', JStr (topics_set_fan_speed c)),
     (''fan_speed_list'', JArr (map (JStr \<circ> fst) FAN_SPEEDS)),
     (''send_command_topic'', JStr (topics_send_command c)),
     (''json_attributes_topic'', JStr (topics_attributes c))]"

subsection \<open>Effects, promises and timers\<close>

definition emit :: "effect \<Rightarrow> bridge \<Rightarrow> bridge" where
  "emit e b = b\<lparr>trace := trace b @ [e]\<rparr>"

text \<open>A device call whose promise gets no handler.\<close>

definition call :: "vacuum_call \<Rightarrow> bridge \<Rightarrow> bridge" where
  "call c b = emit (Vacuum c) b"

text \<open>Registering handlers on a new promise: they run when the promise settles, which is
  a later turn of the event loop, after the running callback has returned.\<close>

definition await :: "continuation \<Rightarrow> bridge \<Rightarrow> bridge" where
  "await k b = b\<lparr>loop_pending := loop_pending b @ [(loop_next_promise b, k)],
                 loop_next_promise := Suc (loop_next_promise b)\<rparr>"

definition call_then :: "vacuum_call \<Rightarrow> continuation \<Rightarrow> bridge \<Rightarrow> bridge" where
  "call_then c k b = await k (call c b)"

definition clearTimeout :: "nat \<Rightarrow> bridge \<Rightarrow> bridge" where
  "clearTimeout t b = b\<lparr>loop_timers := removeAll t (loop_timers b)\<rparr>"

text \<open>\<open>this.attributesUpdateTimeout = setTimeout(() => { this.updateAttributesTopic(); },
  this.attributesUpdateInterval)\<close>: a new timer, whose handle replaces the stored one.\<close>

definition setTimeout_updateAttributesTopic :: "bridge \<Rightarrow> bridge" where
  "setTimeout_updateAttributesTopic b =
     b\<lparr>attributesUpdateTimeout := Some (loop_next_timer b),
       loop_timers := loop_timers b @ [loop_next_timer b],
       loop_next_timer := Suc (loop_next_timer b)\<rparr>"

text \<open>\<open>this.client && this.client.connected === true\<close>\<close>

definition client_connected :: "bridge \<Rightarrow> bool" where
  "client_connected b =
     (case client b of None \<Rightarrow> False | Some h \<Rightarrow> connected h = JBool True)"

section \<open>\<open>MqttClient\<close>\<close>

subsection \<open>\<open>connect\<close>\<close>

datatype exception = fs_error

text \<open>
  The guard \<open>!this.client || (this.client && this.client.connected === false &&
  this.client.reconnecting === false)\<close>, then the optional read of the CA file (which
  throws out of \<open>connect\<close> when it fails) and \<open>mqtt.connect\<close>, whose handle replaces
  \<open>this.client\<close>.  The three handlers registered on the handle are \<open>on_connect\<close>,
  \<open>on_message\<close> and the error logger.
\<close>

definition connect_guard :: "bridge \<Rightarrow> bool" where
  "connect_guard b =
     (case client b of
        None \<Rightarrow> True
      | Some h \<Rightarrow> connected h = JBool False \<and> reconnecting h = JBool False)"

definition connect :: "externals \<Rightarrow> bridge \<Rightarrow> exception + bridge" where
  "connect ext b =
     (if connect_guard b then
        (if caPath (config b) \<noteq> [] then
           (case fs_readFileSync ext (caPath (config b)) of
              None \<Rightarrow> Inl fs_error
            | Some ca \<Rightarrow>
                Inr (emit (Mqtt_connect (brokerURL (config b)) (Some ca))
                       (b\<lparr>client := Some (mqtt_connect ext)\<rparr>)))
         else Inr (emit (Mqtt_connect (brokerURL (config b)) None)
                     (b\<lparr>client := Some (mqtt_connect ext)\<rparr>)))
      else Inr b)"

text \<open>The handler of the handle's \<open>connect\<close> event: one batch subscription, whose
  callback publishes the discovery descriptor.\<close>

definition on_connect :: "bridge \<Rightarrow> bridge" where
  "on_connect b =
     await subscribe_callback
       (emit (Subscribe [topics_command (config b), topics_set_fan_speed (config b),
                         topics_send_command (config b)] (qos (config b)))
          (emit (Logger_info ''Connected successfully to mqtt server'') b))"

definition on_subscribed :: "externals \<Rightarrow> settlement \<Rightarrow> bridge \<Rightarrow> bridge" where
  "on_subscribed ext err b =
     (if err \<noteq> Rejected then
        emit (Publish (topics_homeassistant_autoconf_vacuum (config b))
                (JSON_stringify (autoconf_payloads_vacuum ext (config b))) True (qos (config b))) b
      else emit Logger_error b)"

subsection \<open>\<open>updateMapDataTopic\<close> and \<open>updateStatusTopic\<close>\<close>

definition updateMapDataTopic :: "bridge \<Rightarrow> bridge" where
  "updateMapDataTopic b =
     (if client_connected b \<and> truthy (map_parsedData b) then
        emit (Publish (topics_map_data (config b)) (JSON_stringify (map_parsedData b))
                True (qos (config b))) b
      else b)"

text \<open>\<open>Object.keys(FAN_SPEEDS).find(key => FAN_SPEEDS[key] === statusData.fan_power)\<close>\<close>

definition fan_speed_name :: "jsval \<Rightarrow> jsval" where
  "fan_speed_name p =
     (case List.find (\<lambda>kv. JNum (snd kv) = p) FAN_SPEEDS of
        None \<Rightarrow> JUndefined
      | Some kv \<Rightarrow> JStr (fst kv))"

definition state_response :: "externals \<Rightarrow> status_data \<Rightarrow> (string \<times> jsval) list" where
  "state_response ext statusData =
     [(''state'', (case HA_STATE_MAPPINGS_at (state statusData) of
                     None \<Rightarrow> JUndefined | Some s \<Rightarrow> JStr s)),
      (''battery_level'', battery statusData),
      (''fan_speed'', fan_speed_name (fan_power statusData))]
     @ (if error_code statusData \<noteq> JUndefined \<and> error_code statusData \<noteq> JNum 0
        then [(''error'', GET_ERROR_CODE_DESCRIPTION ext (error_code statusData))]
        else [])"

definition updateStatusTopic :: "externals \<Rightarrow> status_data \<Rightarrow> bridge \<Rightarrow> bridge" where
  "updateStatusTopic ext statusData b =
     (if client_connected b \<and> battery statusData \<noteq> JUndefined then
        emit (Publish (topics_state (config b))
                (JSON_stringify (JObj (state_response ext statusData))) True (qos (config b))) b
      else b)"

subsection \<open>\<open>updateAttributesTopic\<close>\<close>

text \<open>
  The synchronous part: the stored timer is cleared, and either the first fetch is
  started, its handlers waiting for it to settle, or the next cycle is scheduled.
\<close>

definition updateAttributesTopic :: "bridge \<Rightarrow> bridge" where
  "updateAttributesTopic b =
     (let b1 = (case attributesUpdateTimeout b of None \<Rightarrow> b | Some t \<Rightarrow> clearTimeout t b)
      in if client_connected b1 then call_then getConsumableStatus then_getConsumableStatus b1
         else setTimeout_updateAttributesTopic b1)"

definition updateAttributesTopicOnEvent :: "status_data \<Rightarrow> bridge \<Rightarrow> bridge" where
  "updateAttributesTopicOnEvent statusData b =
     updateAttributesTopic
       (b\<lparr>last_ha_state := HA_STATE_MAPPINGS_at (state statusData),
          last_state := state statusData\<rparr>)"

text \<open>The handlers of \<open>getConsumableStatus()\<close>: \<open>.then(res => ...)\<close> starts the second
  fetch and returns; \<open>.catch\<close> logs and schedules the next cycle.\<close>

definition on_consumable :: "settlement \<Rightarrow> bridge \<Rightarrow> bridge" where
  "on_consumable s b =
     (case s of
        Fulfilled_consumable res \<Rightarrow> call_then getCleanSummary (then_getCleanSummary res) b
      | Rejected \<Rightarrow> setTimeout_updateAttributesTopic (emit Logger_error b)
      | _ \<Rightarrow> b)"

text \<open>The object assigned to \<open>this.last_run_stats\<close> by the handler of \<open>getCleanRecord\<close>.\<close>

definition last_run_stats_of :: "externals \<Rightarrow> clean_record \<Rightarrow> jsval" where
  "last_run_stats_of ext d = JObj
     [(''startTime'', JNum (record_start d * 1000)),
      (''endTime'', JNum (record_end d * 1000)),
      (''duration'', JNum (record_duration d)),
      (''area'', JStr (toFixed1_area ext (record_area d))),
      (''errorCode'', JNum (record_error d)),
      (''errorDescription'', GET_ERROR_CODE_DESCRIPTION ext (JNum (record_error d))),
      (''finishedFlag'', JBool (record_finished d = 1))]"

definition on_cleanRecord :: "externals \<Rightarrow> settlement \<Rightarrow> bridge \<Rightarrow> bridge" where
  "on_cleanRecord ext s b =
     (case s of
        Fulfilled_record d \<Rightarrow> b\<lparr>last_run_stats := last_run_stats_of ext d\<rparr>
      | Rejected \<Rightarrow> emit Logger_error b
      | _ \<Rightarrow> b)"

text \<open>The snapshot \<open>response\<close>, from \<open>res\<close>, \<open>res2\<close>, the fields of \<open>this\<close> as they are
  when the assignments run and what \<open>this.vacuum.getZoneCleaningStatus()\<close> returns; the keys
  in the order of the assignments.\<close>

definition attributes_response ::
  "externals \<Rightarrow> consumable \<Rightarrow> clean_summary \<Rightarrow> bridge \<Rightarrow> (string \<times> jsval) list" where
  "attributes_response ext res res2 b =
     [(''cleanTime'', JStr (toFixed1_hours ext (summary_time res2))),
      (''cleanArea'', JStr (toFixed1_area ext (summary_area res2))),
      (''cleanCount'', JNum (summary_count res2)),
      (''last_run_stats'', (if truthy (last_run_stats b) then last_run_stats b else JObj [])),
      (''mainBrush'', JStr (toFixed1_remaining ext 300 (main_brush_work_time res))),
      (''sideBrush'', JStr (toFixed1_remaining ext 200 (side_brush_work_time res))),
      (''filter'', JStr (toFixed1_remaining ext 150 (filter_work_time res))),
      (''sensor'', JStr (toFixed1_remaining ext 30 (sensor_dirty_time res))),
      (''state'', (case last_ha_state b of None \<Rightarrow> JUndefined | Some s \<Rightarrow> JStr s)),
      (''valetudo_state'', JStr (last_state b))]
     @ (if truthy (vacuum_zoneCleaningStatus b)
        then [(''zoneStatus'', vacuum_zoneCleaningStatus b)] else [])"

text \<open>
  Lines 263 to 266: the comparison of the two serialisations, the retained publish and
  the replacement of \<open>this.last_attributes\<close>.  \<open>this.client.publish\<close> throws when there is
  no handle; the throw leaves the \<open>then\<close> handler and is the \<open>Inl\<close> result.
\<close>

definition publish_attributes :: "jsval \<Rightarrow> bridge \<Rightarrow> unit + bridge" where
  "publish_attributes response b =
     (if JSON_stringify response \<noteq> JSON_stringify (last_attributes b) then
        (case client b of
           None \<Rightarrow> Inl ()
         | Some h \<Rightarrow>
             Inr ((emit (Publish (topics_attributes (config b)) (JSON_stringify response)
                     True (qos (config b))) b)\<lparr>last_attributes := response\<rparr>))
      else Inr b)"

text \<open>
  The handlers of \<open>getCleanSummary()\<close>.  In \<open>.then(res2 => ...)\<close> the call of
  \<open>getCleanRecord\<close> only registers its handlers: they cannot run before this handler has
  returned, so \<open>response\<close> is assembled, compared, published and the next cycle scheduled
  while that promise is pending.  \<open>.catch\<close> handles a rejection of the fetch and a throw
  of the \<open>then\<close> handler alike: it logs and schedules the next cycle.
\<close>

definition on_cleanSummary :: "externals \<Rightarrow> consumable \<Rightarrow> settlement \<Rightarrow> bridge \<Rightarrow> bridge" where
  "on_cleanSummary ext res s b =
     (case s of
        Fulfilled_summary res2 \<Rightarrow>
          (let b1 = (case summary_last_runs res2 of
                       [] \<Rightarrow> b
                     | r # rs \<Rightarrow> call_then (getCleanRecord r) then_getCleanRecord b)
           in case publish_attributes (JObj (attributes_response ext res res2 b1)) b1 of
                Inr b2 \<Rightarrow> setTimeout_updateAttributesTopic b2
              | Inl e \<Rightarrow> setTimeout_updateAttributesTopic (emit Logger_error b1))
      | Rejected \<Rightarrow> setTimeout_updateAttributesTopic (emit Logger_error b)
      | _ \<Rightarrow> b)"

subsection \<open>The command handlers\<close>

definition handleFanSpeedRequest :: "string \<Rightarrow> bridge \<Rightarrow> bridge" where
  "handleFanSpeedRequest speed b =
     call (setFanSpeed (case map_of FAN_SPEEDS speed of
                          None \<Rightarrow> JUndefined | Some n \<Rightarrow> JNum n)) b"

definition handleCommand :: "string \<Rightarrow> bridge \<Rightarrow> bridge" where
  "handleCommand command b =
     (if command = MQTT_COMMANDS_START then call_then getCurrentStatus then_getCurrentStatus b
      else if command = MQTT_COMMANDS_STOP then call stopCleaning b
      else if command = MQTT_COMMANDS_RETURN_TO_BASE then call_then stopCleaning then_stopCleaning b
      else if command = MQTT_COMMANDS_CLEAN_SPOT then call spotClean b
      else if command = MQTT_COMMANDS_LOCATE then call findRobot b
      else if command = MQTT_COMMANDS_PAUSE then call pauseCleaning b
      else b)"

text \<open>The two handlers of \<open>getCurrentStatus().then(..., ...)\<close> in the \<open>start\<close> case.\<close>

definition on_currentStatus :: "settlement \<Rightarrow> bridge \<Rightarrow> bridge" where
  "on_currentStatus s b =
     (case s of
        Fulfilled_status res \<Rightarrow>
          (if in_cleaning res = JNum 2
              \<and> HA_STATE_MAPPINGS_at (state res) = Some HA_STATES_PAUSED
           then call resumeCleaningZone b
           else call startCleaning b)
      | Rejected \<Rightarrow> emit Logger_error b
      | _ \<Rightarrow> b)"

text \<open>\<open>stopCleaning().then(() => { this.vacuum.driveHome(); })\<close>: one handler, for
  fulfilment with any value; a rejection has no handler.\<close>

definition on_stopped :: "settlement \<Rightarrow> bridge \<Rightarrow> bridge" where
  "on_stopped s b = (if s = Rejected then b else call driveHome b)"

definition on_zones_started :: "settlement \<Rightarrow> bridge \<Rightarrow> bridge" where
  "on_zones_started s b = (if s = Rejected then emit Logger_error b else b)"

text \<open>\<open>e[i]\<close> on an array.\<close>

definition element :: "jsval list \<Rightarrow> nat \<Rightarrow> jsval" where
  "element xs i = (if i < length xs then xs ! i else JUndefined)"

text \<open>\<open>spots.find(e => Array.isArray(e) && e[0] === msg.spot_id)\<close>; on the values of
  this model \<open>===\<close> and SameValueZero agree.\<close>

definition find_spot :: "jsval list \<Rightarrow> jsval \<Rightarrow> jsval list option" where
  "find_spot spots spot_id =
     (case List.find (\<lambda>e. case e of JArr xs \<Rightarrow> same_value_zero (element xs 0) spot_id
                               | _ \<Rightarrow> False) spots of
        Some (JArr xs) \<Rightarrow> Some xs
      | _ \<Rightarrow> None)"

text \<open>The identifiers \<open>zoned_cleanup\<close> submits: the configured zones whose name or whose
  identifier is an element of \<open>zones\<close>, in the order of the zone table.\<close>

definition zone_ids_of :: "zone list \<Rightarrow> jsval list \<Rightarrow> jsval list" where
  "zone_ids_of table zones =
     map zone_id
       (filter (\<lambda>z. array_includes zones (zone_name z) \<or> array_includes zones (zone_id z))
          table)"

text \<open>\<open>handleCustomCommand\<close> after the \<open>try\<close>: \<open>msg\<close> is the parsed message, or
  \<open>undefined\<close> when the parse threw.\<close>

definition handleCustomCommand_msg :: "jsval \<Rightarrow> bridge \<Rightarrow> bridge" where
  "handleCustomCommand_msg msg b =
     (if truthy msg \<and> truthy (get_prop msg ''command'') then
        (if get_prop msg ''command'' = JStr CUSTOM_COMMANDS_ZONED_CLEANUP then
           (case get_prop msg ''zone_ids'' of
              JArr zones \<Rightarrow>
                (if zones \<noteq> [] then
                   call_then (startCleaningZonesById (zone_ids_of (configuration_zones b) zones))
                     catch_startCleaningZonesById b
                 else emit (Logger_info ''Missing zone_ids or empty array'') b)
            | _ \<Rightarrow> emit (Logger_info ''Missing zone_ids or empty array'') b)
         else if get_prop msg ''command'' = JStr CUSTOM_COMMANDS_GO_TO then
           (if truthy (get_prop msg ''spot_id'') then
              (case find_spot (configuration_spots b) (get_prop msg ''spot_id'') of
                 Some spot_coords \<Rightarrow> call (goTo (element spot_coords 1) (element spot_coords 2)) b
               | None \<Rightarrow> emit (Logger_info ''Invalid spot_id'') b)
            else emit (Logger_info ''Missing spot_id'') b)
         else emit (Logger_info ''Received invalid custom command'') b)
      else b)"

definition handleCustomCommand :: "externals \<Rightarrow> string \<Rightarrow> bridge \<Rightarrow> bridge" where
  "handleCustomCommand ext message b =
     (case JSON_parse ext message of
        None \<Rightarrow> handleCustomCommand_msg JUndefined (emit Logger_error b)
      | Some msg \<Rightarrow> handleCustomCommand_msg msg b)"

text \<open>The handler of the handle's \<open>message\<close> event; the \<open>switch\<close> takes the first case
  that is equal to the topic.\<close>

definition on_message :: "externals \<Rightarrow> string \<Rightarrow> string \<Rightarrow> bridge \<Rightarrow> bridge" where
  "on_message ext topic msg b =
     (if topic = topics_send_command (config b) then handleCustomCommand ext msg b
      else if topic = topics_set_fan_speed (config b) then handleFanSpeedRequest msg b
      else if topic = topics_command (config b) then handleCommand msg b
      else b)"

subsection \<open>The constructor and the event loop\<close>

definition new_bridge :: "mqtt_config \<Rightarrow> zone list \<Rightarrow> jsval list \<Rightarrow> bridge" where
  "new_bridge c table spots =
     \<lparr>config = c, client = None, last_ha_state = Some HA_STATES_IDLE,
      last_state = ''UNKNOWN'', last_attributes = JObj [], last_run_stats = JUndefined,
      attributesUpdateTimeout = None, loop_timers = [], loop_next_timer = 0,
      loop_pending = [], loop_next_promise = 0, vacuum_zoneCleaningStatus = JNull,
      configuration_zones = table, configuration_spots = spots,
      map_parsedData = JUndefined, trace = []\<rparr>"

text \<open>The constructor with the configuration read: \<open>this.connect();
  this.updateAttributesTopic();\<close> on the new object.\<close>

definition constructor ::
  "externals \<Rightarrow> mqtt_config \<Rightarrow> zone list \<Rightarrow> jsval list \<Rightarrow> exception + bridge" where
  "constructor ext c table spots =
     (case connect ext (new_bridge c table spots) of
        Inl e \<Rightarrow> Inl e
      | Inr b \<Rightarrow> Inr (updateAttributesTopic b))"

text \<open>
  What can happen next: an event of the emitter the constructor listens to, an event of
  the connection handle, the library changing the handle's flags, a timer firing, a
  pending promise settling, or the collaborators' data changing.
\<close>

datatype event =
    miio_status status_data
  | valetudo_map jsval
  | client_connect
  | client_message string string
  | client_flags jsval jsval
  | timer_fires nat
  | settles nat settlement
  | zone_cleaning_status jsval

definition resume :: "externals \<Rightarrow> continuation \<Rightarrow> settlement \<Rightarrow> bridge \<Rightarrow> bridge" where
  "resume ext k s b =
     (case k of
        then_getConsumableStatus \<Rightarrow> on_consumable s b
      | then_getCleanSummary res \<Rightarrow> on_cleanSummary ext res s b
      | then_getCleanRecord \<Rightarrow> on_cleanRecord ext s b
      | then_getCurrentStatus \<Rightarrow> on_currentStatus s b
      | then_stopCleaning \<Rightarrow> on_stopped s b
      | catch_startCleaningZonesById \<Rightarrow> on_zones_started s b
      | subscribe_callback \<Rightarrow> on_subscribed ext s b)"

definition step :: "externals \<Rightarrow> event \<Rightarrow> bridge \<Rightarrow> bridge" where
  "step ext ev b =
     (case ev of
        miio_status statusData \<Rightarrow>
          updateAttributesTopicOnEvent statusData (updateStatusTopic ext statusData b)
      | valetudo_map parsed \<Rightarrow>
          (if provideMapData (config b) then updateMapDataTopic (b\<lparr>map_parsedData := parsed\<rparr>)
           else b\<lparr>map_parsedData := parsed\<rparr>)
      | client_connect \<Rightarrow> on_connect b
      | client_message topic msg \<Rightarrow> on_message ext topic msg b
      | client_flags c r \<Rightarrow>
          (case client b of
             None \<Rightarrow> b
           | Some h \<Rightarrow> b\<lparr>client := Some (h\<lparr>connected := c, reconnecting := r\<rparr>)\<rparr>)
      | timer_fires t \<Rightarrow>
          (if List.member (loop_timers b) t
           then updateAttributesTopic (b\<lparr>loop_timers := removeAll t (loop_timers b)\<rparr>)
           else b)
      | settles p s \<Rightarrow>
          (case map_of (loop_pending b) p of
             None \<Rightarrow> b
           | Some k \<Rightarrow>
               resume ext k s (b\<lparr>loop_pending := filter (\<lambda>qk. fst qk \<noteq> p) (loop_pending b)\<rparr>))
      | zone_cleaning_status z \<Rightarrow> b\<lparr>vacuum_zoneCleaningStatus := z\<rparr>)"

definition run :: "externals \<Rightarrow> event list \<Rightarrow> bridge \<Rightarrow> bridge" where
  "run ext evs b = fold (step ext) evs b"

section \<open>\<open>Codec\<close>\<close>

text \<open>
  The second source file.  Its library calls are arguments: the MD5 digest, the
  AES-128-CBC decipher (\<open>None\<close> when \<open>decipher.final()\<close> throws), the decoding of a buffer
  to a string, and \<open>JSON.parse\<close> (\<open>None\<close> when it throws).
\<close>

type_synonym byte = "8 word"

record codec_externals =
  md5 :: "byte list \<Rightarrow> byte list"
  aes_128_cbc_decipher :: "byte list \<Rightarrow> byte list \<Rightarrow> byte list \<Rightarrow> byte list option"
    \<comment> \<open>key, initialisation vector, ciphertext\<close>
  buffer_toString :: "byte list \<Rightarrow> string"
  codec_JSON_parse :: "string \<Rightarrow> jsval option"

record codec =
  codec_token :: "byte list"
  tokenKey :: "byte list"
  tokenIV :: "byte list"

definition setToken :: "codec_externals \<Rightarrow> byte list \<Rightarrow> codec" where
  "setToken cx t =
     \<lparr>codec_token = t, tokenKey = md5 cx t, tokenIV = md5 cx (md5 cx t @ t)\<rparr>"

text \<open>What \<open>handleResponse\<close> returns; \<open>response_msg\<close> is \<open>JNull\<close> and \<open>response_token\<close>
  is \<open>None\<close> for the source's \<open>null\<close>.\<close>

record decoded =
  response_stamp :: nat
  response_deviceId :: nat
  response_msg :: jsval
  response_token :: "byte list option"

datatype codec_exception = decipher_error | json_syntax_error

text \<open>\<open>buf.readUInt32BE(offset)\<close>, on a buffer that holds the four bytes.\<close>

definition readUInt32BE :: "byte list \<Rightarrow> nat \<Rightarrow> nat" where
  "readUInt32BE buf offset =
     unat (buf ! offset) * 16777216 + unat (buf ! (offset + 1)) * 65536
     + unat (buf ! (offset + 2)) * 256 + unat (buf ! (offset + 3))"

text \<open>\<open>header\<close>: 32 zero bytes, over which the first 32 bytes of the response (or all of
  it, when it is shorter) are copied.\<close>

definition header_of :: "byte list \<Rightarrow> byte list" where
  "header_of response = take 32 response @ replicate (32 - length response) 0"

definition encrypted_of :: "byte list \<Rightarrow> byte list" where
  "encrypted_of response = drop 32 response"

definition digest_of :: "codec_externals \<Rightarrow> codec \<Rightarrow> byte list \<Rightarrow> byte list" where
  "digest_of cx c response =
     md5 cx (take 16 (header_of response) @ codec_token c @ encrypted_of response)"

definition checksum_of :: "byte list \<Rightarrow> byte list" where
  "checksum_of response = drop 16 (header_of response)"

text \<open>\<open>.replace(/[\u0000-\u0019]+/g, "")\<close>\<close>

definition strip_control :: "string \<Rightarrow> string" where
  "strip_control s = filter (\<lambda>ch. (25 :: nat) < of_char ch) s"

text \<open>The result, with the \<open>Logger.error\<close> calls made on the way; \<open>Inl\<close> is an exception
  thrown out of \<open>handleResponse\<close>.\<close>

definition handleResponse ::
  "codec_externals \<Rightarrow> codec \<Rightarrow> byte list \<Rightarrow> codec_exception + decoded \<times> effect list" where
  "handleResponse cx c response =
     (let header = header_of response;
          encrypted = encrypted_of response;
          stamp = readUInt32BE header 12;
          digest = digest_of cx c response;
          checksum = checksum_of response;
          result = (\<lambda>m t. \<lparr>response_stamp = stamp, response_deviceId = readUInt32BE header 8,
                              response_msg = m, response_token = t\<rparr>)
      in if checksum \<noteq> digest then
           (if length encrypted > 0 then Inr (result JNull None, [Logger_error])
            else Inr (result JNull (Some (drop 16 header)), []))
         else if length encrypted > 0 then
           (case aes_128_cbc_decipher cx (tokenKey c) (tokenIV c) encrypted of
              None \<Rightarrow> Inl decipher_error
            | Some plain \<Rightarrow>
                (case codec_JSON_parse cx (strip_control (buffer_toString cx plain)) of
                   None \<Rightarrow> Inl json_syntax_error
                 | Some m \<Rightarrow> Inr (result m None, [])))
         else Inr (result JNull None, []))"

text \<open>Stand-ins for the library in the concrete packets below: a digest of sixteen zero
  bytes, a decipher that returns its input, and a parser that knows one document.\<close>

definition sample_codec_externals :: codec_externals where
  "sample_codec_externals =
     \<lparr>md5 = (\<lambda>bs. replicate 16 0),
      aes_128_cbc_decipher = (\<lambda>key iv bs. Some bs),
      buffer_toString = map (\<lambda>b. char_of (unat b)),
      codec_JSON_parse = (\<lambda>s. if s = ''{}'' then Some (JObj []) else None)\<rparr>"

text \<open>Three packets for a codec with the empty token: a header whose checksum is the
  stand-in digest, followed by the payload \<open>{}\<close>; a header with another checksum and no
  payload; and that header followed by a payload.\<close>

definition sample_codec :: codec where
  "sample_codec = setToken sample_codec_externals []"

definition packet_valid :: "byte list" where
  "packet_valid = replicate 32 0 @ [0x7B, 0x7D]"

definition packet_token :: "byte list" where
  "packet_token = replicate 16 0 @ replicate 16 1"

definition packet_invalid :: "byte list" where
  "packet_invalid = replicate 16 0 @ replicate 16 1 @ [0x7B, 0x7D]"

section \<open>Observations\<close>

text \<open>The effects between an earlier state and a later one.\<close>

definition new_effects :: "bridge \<Rightarrow> bridge \<Rightarrow> effect list" where
  "new_effects b b' = drop (length (trace b)) (trace b')"

text \<open>The payloads published to a topic so far.\<close>

definition published_to :: "string \<Rightarrow> bridge \<Rightarrow> string option list" where
  "published_to topic b =
     concat (map (\<lambda>e. case e of Publish t payload r q \<Rightarrow> (if t = topic then [payload] else [])
                         | _ \<Rightarrow> []) (trace b))"

text \<open>The handle reports both disconnected and not reconnecting: what the guard of
  \<open>connect\<close> asks of an existing handle.\<close>

definition handle_idle :: "client_handle \<Rightarrow> bool" where
  "handle_idle h = (connected h = JBool False \<and> reconnecting h = JBool False)"

text \<open>An event by which the library sets the handle's flags to disconnected and not
  reconnecting: the end of a connect or reconnect attempt that gave up.\<close>

definition reports_idle :: "event \<Rightarrow> bool" where
  "reports_idle ev =
     (case ev of client_flags c r \<Rightarrow> c = JBool False \<and> r = JBool False | _ \<Rightarrow> False)"

text \<open>The connect attempts made so far.\<close>

definition connect_attempts :: "bridge \<Rightarrow> nat" where
  "connect_attempts b =
     length (filter (\<lambda>e. case e of Mqtt_connect url ca \<Rightarrow> True | _ \<Rightarrow> False) (trace b))"

text \<open>The identifier the next promise gets is not the identifier of a pending one.\<close>

definition fresh_promises :: "bridge \<Rightarrow> bool" where
  "fresh_promises b = list_all (\<lambda>qk. fst qk < loop_next_promise b) (loop_pending b)"

text \<open>
  The equality the spec words for the snapshot comparison: full structural equality,
  insensitive to the order of an object's fields.  It is not part of the source, which
  compares serialisations; it is here to be compared with the source's comparison.
\<close>

fun spec_structural_equal :: "jsval \<Rightarrow> jsval \<Rightarrow> bool" where
  "spec_structural_equal (JObj xs) b =
     (case b of
        JObj ys \<Rightarrow>
          length xs = length ys
          \<and> list_all (\<lambda>kv. case map_of ys (fst kv) of
                              None \<Rightarrow> False
                            | Some w \<Rightarrow> spec_structural_equal (snd kv) w) xs
      | _ \<Rightarrow> False)"
| "spec_structural_equal (JArr xs) b =
     (case b of
        JArr ys \<Rightarrow> list_all2 (\<lambda>x y. spec_structural_equal x y) xs ys
      | _ \<Rightarrow> False)"
| "spec_structural_equal a b = (a = b)"

subsection \<open>A concrete installation\<close>

text \<open>
  Collaborators for the concrete runs below.  The decimal texts are computed exactly,
  rounding the tenths half up on counters that are not negative; on the counters used
  below this is the text the source's floating-point expressions produce.  The handle of
  \<open>mqtt.connect\<close> is the one of the library version the package file names: a new client
  has \<open>connected\<close> set to \<open>false\<close> and \<open>reconnecting\<close> not yet set.
\<close>

definition toFixed1 :: "int \<Rightarrow> int \<Rightarrow> string" where
  "toFixed1 n d =
     (let tenths = nat ((20 * n + d) div (2 * d))
      in show_nat (tenths div 10) @ CHR ''.'' # show_nat (tenths mod 10))"

definition sample_externals :: externals where
  "sample_externals =
     \<lparr>JSON_parse = (\<lambda>s. None),
      toFixed1_hours = (\<lambda>x. toFixed1 x 3600),
      toFixed1_area = (\<lambda>x. toFixed1 x 1000000),
      toFixed1_remaining = (\<lambda>limit x. toFixed1 (max 0 (limit * 3600 - x)) 3600),
      GET_ERROR_CODE_DESCRIPTION = (\<lambda>code. JStr ''No error''),
      fs_readFileSync = (\<lambda>path. None),
      mqtt_connect = \<lparr>connected = JBool False, reconnecting = JUndefined\<rparr>,
      getManufacturerName = ''Xiaomi'',
      getModelName = ''Mi Robot Vacuum''\<rparr>"

definition sample_config :: mqtt_config where
  "sample_config =
     \<lparr>brokerURL = ''mqtt://broker'', cfg_identifier = ''rockrobo'', topicPrefix = ''valetudo'',
      autoconfPrefix = ''homeassistant'', attributesUpdateInterval = 60000,
      provideMapData = True, caPath = [], qos = 0\<rparr>"

text \<open>The zone table of the spec's example.\<close>

definition sample_zones :: "zone list" where
  "sample_zones =
     [\<lparr>zone_id = JNum 3, zone_name = JStr ''Kitchen''\<rparr>,
      \<lparr>zone_id = JNum 7, zone_name = JStr ''Garage''\<rparr>]"

text \<open>The client after its constructor has run and the broker has accepted the
  connection: the timer of the constructor's own cycle is pending.\<close>

definition sample_bridge :: bridge where
  "sample_bridge =
     (new_bridge sample_config sample_zones [])
       \<lparr>client := Some \<lparr>connected = JBool True, reconnecting = JBool False\<rparr>,
        attributesUpdateTimeout := Some 0, loop_timers := [0], loop_next_timer := 1,
        trace := [Mqtt_connect ''mqtt://broker'' None]\<rparr>"

text \<open>The client between the constructor's call of \<open>connect\<close> and the broker's answer,
  and events that arrive while the attempt is in flight.\<close>

definition connecting_bridge :: bridge where
  "connecting_bridge =
     (new_bridge sample_config sample_zones [])
       \<lparr>client := Some \<lparr>connected = JBool False, reconnecting = JUndefined\<rparr>,
        trace := [Mqtt_connect ''mqtt://broker'' None]\<rparr>"

definition in_flight_events :: "event list" where
  "in_flight_events =
     [miio_status \<lparr>battery = JNum 80, state = ''CHARGING'', error_code = JNum 0,
        fan_power = JNum 60, in_cleaning = JNum 0\<rparr>,
      client_flags (JBool False) (JBool True),
      client_flags (JBool True) (JBool False),
      client_connect]"

text \<open>Device answers for the concrete runs: fresh consumables and an empty history, and
  a history of one run with its record.\<close>

definition sample_status :: status_data where
  "sample_status =
     \<lparr>battery = JNum 80, state = ''CLEANING'', error_code = JNum 0, fan_power = JNum 60,
      in_cleaning = JNum 1\<rparr>"

definition sample_consumable :: consumable where
  "sample_consumable =
     \<lparr>main_brush_work_time = 0, side_brush_work_time = 0, filter_work_time = 0,
      sensor_dirty_time = 0\<rparr>"

definition empty_summary :: clean_summary where
  "empty_summary =
     \<lparr>summary_time = 0, summary_area = 0, summary_count = 0, summary_last_runs = []\<rparr>"

definition sample_summary :: clean_summary where
  "sample_summary =
     \<lparr>summary_time = 3600, summary_area = 2000000, summary_count = 1,
      summary_last_runs = [1600000000]\<rparr>"

definition sample_record :: clean_record where
  "sample_record =
     \<lparr>record_start = 1600000000, record_end = 1600003600, record_duration = 3600,
      record_area = 2000000, record_error = 0, record_finished = 1\<rparr>"

text \<open>The first cycle after the connection is up, on a device with one run in its
  history.\<close>

definition first_cycle :: "event list" where
  "first_cycle =
     [timer_fires 0, settles 0 (Fulfilled_consumable sample_consumable),
      settles 1 (Fulfilled_summary sample_summary)]"

text \<open>Two cycles on a device with an empty history; between them the zone cleaning
  status comes with its two fields in the other order.\<close>

definition zone_status_ab :: jsval where
  "zone_status_ab = JObj [(''a'', JNum 1), (''b'', JNum 2)]"

definition zone_status_ba :: jsval where
  "zone_status_ba = JObj [(''b'', JNum 2), (''a'', JNum 1)]"

definition cycle_ab :: "event list" where
  "cycle_ab =
     [zone_cleaning_status zone_status_ab, timer_fires 0,
      settles 0 (Fulfilled_consumable sample_consumable),
      settles 1 (Fulfilled_summary empty_summary)]"

definition cycle_ba :: "event list" where
  "cycle_ba =
     [zone_cleaning_status zone_status_ba, timer_fires 1,
      settles 2 (Fulfilled_consumable sample_consumable),
      settles 3 (Fulfilled_summary empty_summary)]"

section \<open>The state mapper\<close>

lemmas HA_STATES_defs =
  HA_STATES_CLEANING_def HA_STATES_PAUSED_def HA_STATES_IDLE_def HA_STATES_RETURNING_def
  HA_STATES_DOCKED_def HA_STATES_ERROR_def HA_STATES_ZONE_CLEANUP_def

lemma HA_STATE_MAPPINGS_at_standardized:
  assumes "code \<in> set (map fst HA_STATE_MAPPINGS)"
  shows "\<exists>s. HA_STATE_MAPPINGS_at code = Some s \<and> s \<in> set standardized_states"
proof -
  have "code \<in> {''CHARGER_DISCONNECTED'', ''IDLE'', ''CLEANING'', ''MANUAL_MODE'',
      ''SPOT_CLEANING'', ''GOING_TO_TARGET'', ''ZONED_CLEANING'', ''RETURNING_HOME'',
      ''DOCKING'', ''CHARGING'', ''CHARGING_PROBLEM'', ''ERROR'', ''PAUSED''}"
    using assms by (simp add: HA_STATE_MAPPINGS_def)
  then show ?thesis
    unfolding HA_STATE_MAPPINGS_at_def HA_STATE_MAPPINGS_def standardized_states_def
    by (elim insertE emptyE) (simp_all add: HA_STATES_defs)
qed

text \<open>
  Claim C1.  For every native state code that has an entry in the mapping table the table
  holds exactly one entry, the lookup returns that entry's state, and the state is one of
  the six standardized states cleaning, paused, idle, returning, docked, error.
\<close>

theorem HA_STATE_MAPPINGS_total_on_table:
  assumes "code \<in> set (map fst HA_STATE_MAPPINGS)"
  shows "\<exists>!s. (code, s) \<in> set HA_STATE_MAPPINGS \<and> HA_STATE_MAPPINGS_at code = Some s
              \<and> s \<in> set standardized_states"
proof -
  obtain s where s: "HA_STATE_MAPPINGS_at code = Some s" "s \<in> set standardized_states"
    using HA_STATE_MAPPINGS_at_standardized [OF assms] by blast
  have "(code, s) \<in> set HA_STATE_MAPPINGS"
    using s(1) unfolding HA_STATE_MAPPINGS_at_def by (rule map_of_SomeD)
  with s show ?thesis
    by (intro ex1I [of _ s]) simp_all
qed

theorem HA_STATE_MAPPINGS_total_on_table_witness:
  "''PAUSED'' \<in> set (map fst HA_STATE_MAPPINGS)
   \<and> (\<exists>!s. (''PAUSED'', s) \<in> set HA_STATE_MAPPINGS \<and> HA_STATE_MAPPINGS_at ''PAUSED'' = Some s
              \<and> s \<in> set standardized_states)"
proof -
  have h: "''PAUSED'' \<in> set (map fst HA_STATE_MAPPINGS)"
    by (simp add: HA_STATE_MAPPINGS_def)
  show ?thesis
    using h HA_STATE_MAPPINGS_total_on_table [OF h] by simp
qed

section \<open>Effects of the primitive operations\<close>

lemma sample_bridge_reached:
  "map_sum id (run sample_externals [client_flags (JBool True) (JBool False)])
     (constructor sample_externals sample_config sample_zones []) = Inr sample_bridge"
  by (simp add: constructor_def connect_def connect_guard_def new_bridge_def sample_config_def
      run_def step_def sample_externals_def updateAttributesTopic_def client_connected_def
      setTimeout_updateAttributesTopic_def emit_def sample_bridge_def)

lemma trace_emit [simp]: "trace (emit e b) = trace b @ [e]"
  by (simp add: emit_def)

lemma trace_call [simp]: "trace (call c b) = trace b @ [Vacuum c]"
  by (simp add: call_def)

lemma trace_await [simp]: "trace (await k b) = trace b"
  by (simp add: await_def)

lemma trace_call_then [simp]: "trace (call_then c k b) = trace b @ [Vacuum c]"
  by (simp add: call_then_def)

lemma trace_clearTimeout [simp]: "trace (clearTimeout t b) = trace b"
  by (simp add: clearTimeout_def)

lemma trace_setTimeout [simp]: "trace (setTimeout_updateAttributesTopic b) = trace b"
  by (simp add: setTimeout_updateAttributesTopic_def)

lemma config_emit [simp]: "config (emit e b) = config b"
  by (simp add: emit_def)

lemma config_call_then [simp]: "config (call_then c k b) = config b"
  by (simp add: call_then_def await_def call_def)

lemma config_clearTimeout [simp]: "config (clearTimeout t b) = config b"
  by (simp add: clearTimeout_def)

lemma config_setTimeout [simp]: "config (setTimeout_updateAttributesTopic b) = config b"
  by (simp add: setTimeout_updateAttributesTopic_def)

lemma trace_updateAttributesTopic:
  "trace (updateAttributesTopic b) =
     trace b @ (if client_connected b then [Vacuum getConsumableStatus] else [])"
  by (simp add: updateAttributesTopic_def Let_def client_connected_def clearTimeout_def
      split: option.splits)

lemma config_updateAttributesTopic [simp]: "config (updateAttributesTopic b) = config b"
  by (simp add: updateAttributesTopic_def Let_def split: option.splits)

lemma emit_fields [simp]:
  "client (emit e b) = client b"
  "last_attributes (emit e b) = last_attributes b"
  "last_run_stats (emit e b) = last_run_stats b"
  "loop_timers (emit e b) = loop_timers b"
  "loop_pending (emit e b) = loop_pending b"
  by (simp_all add: emit_def)

lemma setTimeout_fields [simp]:
  "client (setTimeout_updateAttributesTopic b) = client b"
  "last_attributes (setTimeout_updateAttributesTopic b) = last_attributes b"
  "last_run_stats (setTimeout_updateAttributesTopic b) = last_run_stats b"
  "loop_pending (setTimeout_updateAttributesTopic b) = loop_pending b"
  by (simp_all add: setTimeout_updateAttributesTopic_def)

lemma call_then_fields [simp]:
  "client (call_then c k b) = client b"
  "last_attributes (call_then c k b) = last_attributes b"
  "last_run_stats (call_then c k b) = last_run_stats b"
  "loop_timers (call_then c k b) = loop_timers b"
  by (simp_all add: call_then_def call_def await_def emit_def)

lemma attributes_response_call_then [simp]:
  "attributes_response ext res res2 (call_then c k b) = attributes_response ext res res2 b"
  by (simp add: attributes_response_def call_then_def call_def await_def emit_def)

section \<open>The state publisher\<close>

lemma published_to_cong: "trace b = trace b' \<Longrightarrow> published_to topic b = published_to topic b'"
  by (simp add: published_to_def)

lemma published_to_status_event:
  "published_to topic (step ext (miio_status sd) b) =
     published_to topic b
     @ (if client_connected b \<and> battery sd \<noteq> JUndefined \<and> topic = topics_state (config b)
        then [JSON_stringify (JObj (state_response ext sd))] else [])"
  by (simp add: published_to_def step_def updateAttributesTopicOnEvent_def
      trace_updateAttributesTopic updateStatusTopic_def)

lemma topics_state_distinct:
  "topics_state c \<noteq> topics_attributes c"
  "topics_state c \<noteq> topics_map_data c"
  "topics_state c \<noteq> topics_homeassistant_autoconf_vacuum c"
proof -
  show "topics_state c \<noteq> topics_attributes c"
    by (simp add: topics_state_def topics_attributes_def)
  show "topics_state c \<noteq> topics_map_data c"
    by (simp add: topics_state_def topics_map_data_def)
  show "topics_state c \<noteq> topics_homeassistant_autoconf_vacuum c"
  proof
    assume "topics_state c = topics_homeassistant_autoconf_vacuum c"
    then have "last (topics_state c) = last (topics_homeassistant_autoconf_vacuum c)"
      by simp
    then show False
      by (simp add: topics_state_def topics_homeassistant_autoconf_vacuum_def)
  qed
qed

lemma published_to_emit [simp]:
  "published_to topic (emit e b) =
     published_to topic b
     @ (case e of Publish t payload r q \<Rightarrow> (if t = topic then [payload] else []) | _ \<Rightarrow> [])"
  by (simp add: published_to_def)

lemma published_to_same_trace [simp]:
  "published_to topic (call c b) = published_to topic b"
  "published_to topic (await k b) = published_to topic b"
  "published_to topic (call_then c k b) = published_to topic b"
  "published_to topic (clearTimeout t b) = published_to topic b"
  "published_to topic (setTimeout_updateAttributesTopic b) = published_to topic b"
  by (simp_all add: published_to_def)

lemma published_to_updateAttributesTopic [simp]:
  "published_to topic (updateAttributesTopic b) = published_to topic b"
  by (simp add: published_to_def trace_updateAttributesTopic)

lemma published_to_update [simp]:
  "published_to topic (b\<lparr>loop_pending := ps\<rparr>) = published_to topic b"
  "published_to topic (b\<lparr>loop_timers := ts\<rparr>) = published_to topic b"
  "published_to topic (b\<lparr>last_run_stats := v\<rparr>) = published_to topic b"
  "published_to topic (b\<lparr>last_attributes := v\<rparr>) = published_to topic b"
  "published_to topic (b\<lparr>map_parsedData := v\<rparr>) = published_to topic b"
  "published_to topic (b\<lparr>vacuum_zoneCleaningStatus := v\<rparr>) = published_to topic b"
  "published_to topic (b\<lparr>client := h\<rparr>) = published_to topic b"
  by (simp_all add: published_to_def)

declare JSON_stringify.simps [simp del]

lemmas topics_state_distinct' = topics_state_distinct topics_state_distinct [symmetric]

lemma published_state_publish_attributes:
  "publish_attributes r b = Inr b2 \<Longrightarrow>
     published_to (topics_state (config b)) b2 = published_to (topics_state (config b)) b"
  by (auto simp: publish_attributes_def topics_state_distinct' split: if_splits option.splits)

lemma config_publish_attributes:
  "publish_attributes r b = Inr b2 \<Longrightarrow> config b2 = config b"
  by (auto simp: publish_attributes_def split: if_splits option.splits)

lemma published_state_on_cleanSummary:
  "published_to (topics_state (config b)) (on_cleanSummary ext res s b)
     = published_to (topics_state (config b)) b"
proof (cases s)
  case (Fulfilled_summary res2)
  define b1 where "b1 = (case summary_last_runs res2 of [] \<Rightarrow> b
      | r # rs \<Rightarrow> call_then (getCleanRecord r) then_getCleanRecord b)"
  have b1: "config b1 = config b"
    "published_to (topics_state (config b)) b1 = published_to (topics_state (config b)) b"
    by (simp_all add: b1_def split: list.splits)
  show ?thesis
  proof (cases "publish_attributes (JObj (attributes_response ext res res2 b1)) b1")
    case (Inl e)
    then show ?thesis
      using b1 by (simp add: on_cleanSummary_def Fulfilled_summary b1_def [symmetric])
  next
    case (Inr b2)
    then show ?thesis
      using b1 published_state_publish_attributes [OF Inr]
      by (simp add: on_cleanSummary_def Fulfilled_summary b1_def [symmetric])
  qed
qed (simp_all add: on_cleanSummary_def)

lemma published_state_resume:
  "published_to (topics_state (config b)) (resume ext k s b)
     = published_to (topics_state (config b)) b"
proof (cases k)
  case (then_getCleanSummary res)
  then show ?thesis
    by (simp add: resume_def published_state_on_cleanSummary)
qed (simp_all add: resume_def on_consumable_def on_cleanRecord_def
      on_currentStatus_def on_stopped_def on_zones_started_def on_subscribed_def
      topics_state_distinct' split: settlement.splits)

lemma published_handleCommand [simp]:
  "published_to topic (handleCommand command b) = published_to topic b"
  by (simp add: handleCommand_def)

lemma published_handleCustomCommand_msg [simp]:
  "published_to topic (handleCustomCommand_msg msg b) = published_to topic b"
proof (cases "get_prop msg ''zone_ids''")
  case (JArr zones)
  then show ?thesis
    by (simp add: handleCustomCommand_msg_def split: option.splits)
qed (simp_all add: handleCustomCommand_msg_def split: option.splits)

lemma published_state_on_message:
  "published_to topic (on_message ext t msg b) = published_to topic b"
  by (simp add: on_message_def handleCustomCommand_def handleFanSpeedRequest_def
      split: option.splits)

lemma published_state_settles:
  "published_to (topics_state (config b)) (step ext (settles p s) b)
     = published_to (topics_state (config b)) b"
proof (cases "map_of (loop_pending b) p")
  case None
  then show ?thesis by (simp add: step_def)
next
  case (Some k)
  define b' where "b' = b\<lparr>loop_pending := filter (\<lambda>qk. fst qk \<noteq> p) (loop_pending b)\<rparr>"
  have "published_to (topics_state (config b')) (resume ext k s b')
       = published_to (topics_state (config b')) b'"
    by (rule published_state_resume)
  moreover have "config b' = config b" "published_to (topics_state (config b)) b' = published_to (topics_state (config b)) b"
    by (simp_all add: b'_def)
  ultimately show ?thesis
    by (simp add: step_def Some b'_def [symmetric])
qed

lemma published_state_other_events:
  assumes "\<And>sd. ev \<noteq> miio_status sd"
  shows "published_to (topics_state (config b)) (step ext ev b)
     = published_to (topics_state (config b)) b"
proof (cases ev)
  case (settles p s)
  then show ?thesis
    by (simp add: published_state_settles)
next
  case (client_message topic msg)
  then show ?thesis
    by (simp add: step_def published_state_on_message)
next
  case (miio_status sd)
  with assms show ?thesis by blast
next
  case (valetudo_map parsed)
  then show ?thesis
    by (simp add: step_def updateMapDataTopic_def topics_state_distinct')
next
  case client_connect
  then show ?thesis
    by (simp add: step_def on_connect_def)
next
  case (client_flags c r)
  then show ?thesis
    by (simp add: step_def split: option.splits)
next
  case (timer_fires t)
  then show ?thesis
    by (simp add: step_def)
next
  case (zone_cleaning_status z)
  then show ?thesis
    by (simp add: step_def)
qed

text \<open>
  Claim C8.  A status event whose battery reading is \<open>undefined\<close> publishes nothing to the
  state topic; and whatever the event, a publish to the state topic happens only when the
  event is a status event with a defined battery reading and the client is connected.
\<close>

theorem state_topic_needs_battery:
  "(battery statusData = JUndefined \<longrightarrow>
      published_to (topics_state (config b)) (step ext (miio_status statusData) b)
        = published_to (topics_state (config b)) b)
   \<and> (published_to (topics_state (config b)) (step ext ev b)
        \<noteq> published_to (topics_state (config b)) b
      \<longrightarrow> client_connected b \<and> (\<exists>sd. ev = miio_status sd \<and> battery sd \<noteq> JUndefined))"
proof -
  have "published_to (topics_state (config b)) (step ext (miio_status statusData) b)
        = published_to (topics_state (config b)) b"
    if "battery statusData = JUndefined"
    using that by (simp add: published_to_status_event)
  moreover have "client_connected b \<and> (\<exists>sd. ev = miio_status sd \<and> battery sd \<noteq> JUndefined)"
    if changed: "published_to (topics_state (config b)) (step ext ev b)
        \<noteq> published_to (topics_state (config b)) b"
  proof -
    obtain sd where ev: "ev = miio_status sd"
      using changed published_state_other_events [of ev b ext] by blast
    with changed have "client_connected b \<and> battery sd \<noteq> JUndefined"
      by (simp add: published_to_status_event split: if_splits)
    with ev show ?thesis
      by blast
  qed
  ultimately show ?thesis
    by blast
qed

theorem state_topic_needs_battery_witness:
  "battery \<lparr>battery = JUndefined, state = ''CLEANING'', error_code = JNum 0,
            fan_power = JNum 60, in_cleaning = JNum 1\<rparr> = JUndefined
   \<and> published_to (topics_state (config sample_bridge))
       (step sample_externals
          (miio_status \<lparr>battery = JUndefined, state = ''CLEANING'', error_code = JNum 0,
             fan_power = JNum 60, in_cleaning = JNum 1\<rparr>) sample_bridge)
      = published_to (topics_state (config sample_bridge)) sample_bridge
   \<and> published_to (topics_state (config sample_bridge))
       (step sample_externals
          (miio_status \<lparr>battery = JNum 80, state = ''CLEANING'', error_code = JNum 0,
             fan_power = JNum 60, in_cleaning = JNum 1\<rparr>) sample_bridge)
      \<noteq> published_to (topics_state (config sample_bridge)) sample_bridge
   \<and> client_connected sample_bridge"
  using state_topic_needs_battery [of "\<lparr>battery = JUndefined, state = ''CLEANING'',
            error_code = JNum 0, fan_power = JNum 60, in_cleaning = JNum 1\<rparr>" sample_bridge
          sample_externals
          "miio_status \<lparr>battery = JNum 80, state = ''CLEANING'', error_code = JNum 0,
             fan_power = JNum 60, in_cleaning = JNum 1\<rparr>"]
  by (simp add: published_to_status_event client_connected_def sample_bridge_def)

section \<open>Promise identifiers\<close>

text \<open>In every state the constructor and the events reach, the identifier the next promise
  gets is new.\<close>

lemma fresh_promises_cong:
  "loop_pending b' = loop_pending b \<Longrightarrow> loop_next_promise b' = loop_next_promise b \<Longrightarrow>
     fresh_promises b' = fresh_promises b"
  by (simp add: fresh_promises_def)

lemma fresh_promises_simps [simp]:
  "fresh_promises (emit e b) = fresh_promises b"
  "fresh_promises (call c b) = fresh_promises b"
  "fresh_promises (clearTimeout t b) = fresh_promises b"
  "fresh_promises (setTimeout_updateAttributesTopic b) = fresh_promises b"
  by (simp_all add: fresh_promises_def emit_def call_def clearTimeout_def
      setTimeout_updateAttributesTopic_def)

lemma fresh_promises_await: "fresh_promises b \<Longrightarrow> fresh_promises (await k b)"
  by (auto simp: fresh_promises_def await_def list_all_iff)

lemma fresh_promises_call_then: "fresh_promises b \<Longrightarrow> fresh_promises (call_then c k b)"
  by (simp add: call_then_def fresh_promises_await)

lemma fresh_promises_updateAttributesTopic:
  "fresh_promises b \<Longrightarrow> fresh_promises (updateAttributesTopic b)"
  by (simp add: updateAttributesTopic_def Let_def fresh_promises_call_then split: option.splits)

lemma fresh_promises_publish_attributes:
  "publish_attributes r b = Inr b2 \<Longrightarrow> fresh_promises b2 = fresh_promises b"
  by (auto simp: publish_attributes_def fresh_promises_def emit_def
      split: if_splits option.splits)

lemma fresh_promises_on_cleanSummary:
  assumes "fresh_promises b"
  shows "fresh_promises (on_cleanSummary ext res s b)"
proof (cases s)
  case (Fulfilled_summary res2)
  define b1 where "b1 = (case summary_last_runs res2 of [] \<Rightarrow> b
      | r # rs \<Rightarrow> call_then (getCleanRecord r) then_getCleanRecord b)"
  have b1: "fresh_promises b1"
    using assms by (simp add: b1_def fresh_promises_call_then split: list.splits)
  show ?thesis
  proof (cases "publish_attributes (JObj (attributes_response ext res res2 b1)) b1")
    case (Inl e)
    then show ?thesis
      using b1 by (simp add: on_cleanSummary_def Fulfilled_summary b1_def [symmetric])
  next
    case (Inr b2)
    then show ?thesis
      using b1 fresh_promises_publish_attributes [OF Inr]
      by (simp add: on_cleanSummary_def Fulfilled_summary b1_def [symmetric])
  qed
qed (use assms in \<open>simp_all add: on_cleanSummary_def\<close>)

lemma fresh_promises_resume:
  assumes "fresh_promises b"
  shows "fresh_promises (resume ext k s b)"
proof (cases k)
  case (then_getCleanSummary res)
  then show ?thesis
    using assms by (simp add: resume_def fresh_promises_on_cleanSummary)
next
  case then_getCleanRecord
  have "fresh_promises (b\<lparr>last_run_stats := v\<rparr>)" for v
    using assms by (simp add: fresh_promises_def)
  then show ?thesis
    using assms then_getCleanRecord
    by (simp add: resume_def on_cleanRecord_def split: settlement.splits)
qed (use assms in \<open>simp_all add: resume_def on_consumable_def on_currentStatus_def
      on_stopped_def on_zones_started_def on_subscribed_def fresh_promises_call_then
      split: settlement.splits\<close>)

lemma fresh_promises_handleCustomCommand_msg:
  assumes "fresh_promises b"
  shows "fresh_promises (handleCustomCommand_msg msg b)"
proof (cases "get_prop msg ''zone_ids''")
  case (JArr zones)
  then show ?thesis
    using assms
    by (simp add: handleCustomCommand_msg_def fresh_promises_call_then split: option.splits)
qed (use assms in \<open>simp_all add: handleCustomCommand_msg_def split: option.splits\<close>)

lemma fresh_promises_on_message:
  "fresh_promises b \<Longrightarrow> fresh_promises (on_message ext topic msg b)"
  by (simp add: on_message_def handleCustomCommand_def handleFanSpeedRequest_def
      handleCommand_def fresh_promises_handleCustomCommand_msg fresh_promises_call_then
      split: option.splits)

lemma fresh_promises_step:
  assumes "fresh_promises b"
  shows "fresh_promises (step ext ev b)"
proof (cases ev)
  case (settles p s)
  have "fresh_promises (b\<lparr>loop_pending := filter (\<lambda>qk. fst qk \<noteq> p) (loop_pending b)\<rparr>)"
    using assms by (auto simp: fresh_promises_def list_all_iff)
  then show ?thesis
    using assms by (simp add: step_def settles fresh_promises_resume split: option.splits)
next
  case (client_message topic msg)
  then show ?thesis
    using assms by (simp add: step_def fresh_promises_on_message)
next
  case (miio_status sd)
  have "fresh_promises ((updateStatusTopic ext sd b)
      \<lparr>last_ha_state := HA_STATE_MAPPINGS_at (state sd), last_state := state sd\<rparr>)"
    using assms by (simp add: updateStatusTopic_def fresh_promises_def emit_def)
  then show ?thesis
    by (simp add: step_def miio_status updateAttributesTopicOnEvent_def
        fresh_promises_updateAttributesTopic)
next
  case (valetudo_map parsed)
  then show ?thesis
    using assms by (simp add: step_def updateMapDataTopic_def fresh_promises_def emit_def)
next
  case client_connect
  then show ?thesis
    using assms by (simp add: step_def on_connect_def fresh_promises_await)
next
  case (client_flags c r)
  then show ?thesis
    using assms by (simp add: step_def fresh_promises_def split: option.splits)
next
  case (timer_fires t)
  have "fresh_promises (b\<lparr>loop_timers := removeAll t (loop_timers b)\<rparr>)"
    using assms by (simp add: fresh_promises_def)
  then show ?thesis
    using assms by (simp add: step_def timer_fires fresh_promises_updateAttributesTopic)
next
  case (zone_cleaning_status z)
  then show ?thesis
    using assms by (simp add: step_def fresh_promises_def)
qed

lemma fresh_promises_run:
  "fresh_promises b \<Longrightarrow> fresh_promises (run ext evs b)"
  unfolding run_def by (induction evs arbitrary: b) (simp_all add: fresh_promises_step)

lemma fresh_promises_connect:
  "fresh_promises b \<Longrightarrow> connect ext b = Inr b' \<Longrightarrow> fresh_promises b'"
  by (auto simp: connect_def fresh_promises_def emit_def split: if_splits option.splits)

lemma fresh_promises_constructor:
  assumes "constructor ext c table spots = Inr b"
  shows "fresh_promises b"
proof -
  have "fresh_promises (new_bridge c table spots)"
    by (simp add: new_bridge_def fresh_promises_def)
  then show ?thesis
    using assms
    by (auto simp: constructor_def split: sum.splits
        intro: fresh_promises_updateAttributesTopic fresh_promises_connect)
qed

section \<open>The command dispatcher\<close>

lemma map_of_fresh:
  "fresh_promises b \<Longrightarrow> map_of (loop_pending b) (loop_next_promise b) = None"
  by (auto simp: fresh_promises_def list_all_iff map_of_eq_None_iff)

lemma pending_call_then:
  "fresh_promises b \<Longrightarrow>
     map_of (loop_pending (call_then c k b)) (loop_next_promise b) = Some k"
  by (simp add: call_then_def await_def call_def emit_def map_of_fresh map_add_def)

lemma step_settles_call_then:
  assumes "fresh_promises b"
  shows "step ext (settles (loop_next_promise b) s) (call_then c k b)
     = resume ext k s ((call c b)\<lparr>loop_next_promise := Suc (loop_next_promise b)\<rparr>)"
proof -
  have "filter (\<lambda>qk. fst qk \<noteq> loop_next_promise b) (loop_pending b) = loop_pending b"
    using assms by (auto simp: fresh_promises_def list_all_iff intro!: filter_True)
  then show ?thesis
    using pending_call_then [OF assms, of c k]
    by (simp add: step_def) (simp add: call_then_def await_def call_def emit_def)
qed

text \<open>
  Claim C5.  On \<open>start\<close> the dispatcher first queries the device status and does nothing
  else; when the query reports a status, it issues the resume-zone operation if the status
  has \<open>in_cleaning\<close> equal to 2 and its mapped state is paused, and the start-cleaning
  operation for every other status.
\<close>

theorem start_queries_status_first:
  assumes "fresh_promises b"
  shows "new_effects b (handleCommand MQTT_COMMANDS_START b) = [Vacuum getCurrentStatus]
    \<and> new_effects (handleCommand MQTT_COMMANDS_START b)
         (step ext (settles (loop_next_promise b) (Fulfilled_status res))
            (handleCommand MQTT_COMMANDS_START b))
       = [Vacuum (if in_cleaning res = JNum 2
                     \<and> HA_STATE_MAPPINGS_at (state res) = Some HA_STATES_PAUSED
                  then resumeCleaningZone else startCleaning)]"
  by (simp add: handleCommand_def step_settles_call_then [OF assms] resume_def
      on_currentStatus_def new_effects_def)

lemma fresh_promises_sample_bridge: "fresh_promises sample_bridge"
  by (simp add: fresh_promises_def sample_bridge_def new_bridge_def)

theorem start_queries_status_first_witness:
  "fresh_promises sample_bridge
   \<and> new_effects sample_bridge (handleCommand MQTT_COMMANDS_START sample_bridge)
       = [Vacuum getCurrentStatus]
   \<and> new_effects (handleCommand MQTT_COMMANDS_START sample_bridge)
        (step sample_externals
           (settles 0 (Fulfilled_status \<lparr>battery = JNum 80, state = ''PAUSED'',
              error_code = JNum 0, fan_power = JNum 60, in_cleaning = JNum 2\<rparr>))
           (handleCommand MQTT_COMMANDS_START sample_bridge))
       = [Vacuum resumeCleaningZone]
   \<and> new_effects (handleCommand MQTT_COMMANDS_START sample_bridge)
        (step sample_externals
           (settles 0 (Fulfilled_status \<lparr>battery = JNum 80, state = ''PAUSED'',
              error_code = JNum 0, fan_power = JNum 60, in_cleaning = JNum 1\<rparr>))
           (handleCommand MQTT_COMMANDS_START sample_bridge))
       = [Vacuum startCleaning]"
proof -
  have next_promise: "loop_next_promise sample_bridge = 0"
    by (simp add: sample_bridge_def new_bridge_def)
  have paused: "HA_STATE_MAPPINGS_at ''PAUSED'' = Some HA_STATES_PAUSED"
    by (simp add: HA_STATE_MAPPINGS_at_def HA_STATE_MAPPINGS_def)
  show ?thesis
    using start_queries_status_first [OF fresh_promises_sample_bridge,
        of sample_externals "\<lparr>battery = JNum 80, state = ''PAUSED'',
              error_code = JNum 0, fan_power = JNum 60, in_cleaning = JNum 2\<rparr>"]
      start_queries_status_first [OF fresh_promises_sample_bridge,
        of sample_externals "\<lparr>battery = JNum 80, state = ''PAUSED'',
              error_code = JNum 0, fan_power = JNum 60, in_cleaning = JNum 1\<rparr>"]
    by (simp add: next_promise paused fresh_promises_sample_bridge)
qed

text \<open>
  Claim C6.  On \<open>return_to_base\<close> the stop operation is issued first and alone; the
  drive-home operation is issued when the stop settles, and only if it is fulfilled: a
  failed stop issues nothing.
\<close>

theorem return_to_base_stops_first:
  assumes "fresh_promises b"
  shows "new_effects b (handleCommand MQTT_COMMANDS_RETURN_TO_BASE b) = [Vacuum stopCleaning]
    \<and> new_effects (handleCommand MQTT_COMMANDS_RETURN_TO_BASE b)
         (step ext (settles (loop_next_promise b) s)
            (handleCommand MQTT_COMMANDS_RETURN_TO_BASE b))
       = (if s = Rejected then [] else [Vacuum driveHome])"
  by (simp add: handleCommand_def step_settles_call_then [OF assms] resume_def
      on_stopped_def new_effects_def MQTT_COMMANDS_RETURN_TO_BASE_def MQTT_COMMANDS_START_def
      MQTT_COMMANDS_STOP_def)

theorem return_to_base_stops_first_witness:
  "fresh_promises sample_bridge
   \<and> new_effects sample_bridge (handleCommand MQTT_COMMANDS_RETURN_TO_BASE sample_bridge)
       = [Vacuum stopCleaning]
   \<and> new_effects (handleCommand MQTT_COMMANDS_RETURN_TO_BASE sample_bridge)
        (step sample_externals (settles 0 Fulfilled)
           (handleCommand MQTT_COMMANDS_RETURN_TO_BASE sample_bridge))
       = [Vacuum driveHome]
   \<and> new_effects (handleCommand MQTT_COMMANDS_RETURN_TO_BASE sample_bridge)
        (step sample_externals (settles 0 Rejected)
           (handleCommand MQTT_COMMANDS_RETURN_TO_BASE sample_bridge))
       = []"
proof -
  have next_promise: "loop_next_promise sample_bridge = 0"
    by (simp add: sample_bridge_def new_bridge_def)
  show ?thesis
    using return_to_base_stops_first [OF fresh_promises_sample_bridge,
        of sample_externals Fulfilled]
      return_to_base_stops_first [OF fresh_promises_sample_bridge,
        of sample_externals Rejected]
    by (simp add: next_promise fresh_promises_sample_bridge)
qed

lemma array_includes_iff:
  "array_includes zones v \<longleftrightarrow> (\<exists>e \<in> set zones. same_value_zero e v)"
  by (simp add: array_includes_def list_ex_iff)

lemma zone_ids_of_alt:
  "zone_ids_of table zones =
     map zone_id (filter (\<lambda>z. \<exists>e \<in> set zones. same_value_zero e (zone_name z)
                                   \<or> same_value_zero e (zone_id z)) table)"
  by (simp add: zone_ids_of_def array_includes_iff) (metis (lifting))

text \<open>
  Claim C4, amended.  For \<open>zoned_cleanup\<close> with a non-empty \<open>zone_ids\<close> array, one cleaning
  request is submitted, for the identifiers of exactly those configured zones whose name
  or identifier is an element of \<open>zone_ids\<close> by type-sensitive equality, in the order of
  the zone table.  With \<open>zone_ids\<close> \<open>["Kitchen", 7]\<close> and the zone table of the spec's
  example the request is for \<open>[3, 7]\<close>; with \<open>["Kitchen", "7"]\<close> the text \<open>"7"\<close> is not the
  number 7 and the request is for \<open>[3]\<close>.
\<close>

theorem zoned_cleanup_submits_matching_zones:
  assumes "get_prop msg ''command'' = JStr CUSTOM_COMMANDS_ZONED_CLEANUP"
    and "get_prop msg ''zone_ids'' = JArr zones"
    and "zones \<noteq> []"
  shows "new_effects b (handleCustomCommand_msg msg b)
     = [Vacuum (startCleaningZonesById
          (map zone_id
             (filter (\<lambda>z. \<exists>e \<in> set zones. same_value_zero e (zone_name z)
                                \<or> same_value_zero e (zone_id z))
                (configuration_zones b))))]"
proof -
  have "truthy msg"
    using assms(1) by (cases msg) simp_all
  then show ?thesis
    using assms
    by (simp add: handleCustomCommand_msg_def CUSTOM_COMMANDS_ZONED_CLEANUP_def
        new_effects_def zone_ids_of_alt)
qed

theorem zoned_cleanup_string_id_counterexample:
  "JSON_stringify (JObj [(''command'', JStr ''zoned_cleanup''),
                         (''zone_ids'', JArr [JStr ''Kitchen'', JStr ''7''])])
     = Some ''{\"command\":\"zoned_cleanup\",\"zone_ids\":[\"Kitchen\",\"7\"]}''
   \<and> configuration_zones sample_bridge
       = [\<lparr>zone_id = JNum 3, zone_name = JStr ''Kitchen''\<rparr>,
          \<lparr>zone_id = JNum 7, zone_name = JStr ''Garage''\<rparr>]
   \<and> new_effects sample_bridge
        (handleCustomCommand_msg
           (JObj [(''command'', JStr ''zoned_cleanup''),
                  (''zone_ids'', JArr [JStr ''Kitchen'', JStr ''7''])]) sample_bridge)
       = [Vacuum (startCleaningZonesById [JNum 3])]
   \<and> new_effects sample_bridge
        (handleCustomCommand_msg
           (JObj [(''command'', JStr ''zoned_cleanup''),
                  (''zone_ids'', JArr [JStr ''Kitchen'', JStr ''7''])]) sample_bridge)
       \<noteq> [Vacuum (startCleaningZonesById [JNum 3, JNum 7])]"
  by (simp add: JSON_stringify.simps quote_def escape_char_def
      handleCustomCommand_msg_def CUSTOM_COMMANDS_ZONED_CLEANUP_def
        new_effects_def zone_ids_of_def array_includes_def sample_bridge_def new_bridge_def sample_zones_def)

theorem zoned_cleanup_submits_matching_zones_witness:
  "get_prop (JObj [(''command'', JStr ''zoned_cleanup''),
                   (''zone_ids'', JArr [JStr ''Kitchen'', JNum 7])]) ''command''
     = JStr CUSTOM_COMMANDS_ZONED_CLEANUP
   \<and> new_effects sample_bridge
        (handleCustomCommand_msg
           (JObj [(''command'', JStr ''zoned_cleanup''),
                  (''zone_ids'', JArr [JStr ''Kitchen'', JNum 7])]) sample_bridge)
       = [Vacuum (startCleaningZonesById [JNum 3, JNum 7])]"
  using zoned_cleanup_submits_matching_zones [of "JObj [(''command'', JStr ''zoned_cleanup''),
                   (''zone_ids'', JArr [JStr ''Kitchen'', JNum 7])]" "[JStr ''Kitchen'', JNum 7]"
                   sample_bridge]
  by (simp add: CUSTOM_COMMANDS_ZONED_CLEANUP_def sample_bridge_def new_bridge_def sample_zones_def)

section \<open>The attribute aggregator\<close>

lemmas handler_defs =
  run_def step_def resume_def updateAttributesTopicOnEvent_def updateAttributesTopic_def
  updateStatusTopic_def on_consumable_def on_cleanSummary_def on_cleanRecord_def
  publish_attributes_def attributes_response_def client_connected_def
  call_then_def call_def await_def emit_def clearTimeout_def setTimeout_updateAttributesTopic_def

lemmas sample_defs =
  sample_bridge_def new_bridge_def sample_config_def sample_externals_def sample_status_def
  sample_consumable_def empty_summary_def sample_summary_def sample_record_def

text \<open>
  Claim C2.  Every outcome of a cycle schedules exactly one timer
  (\<open>cycle_outcome_schedules_one_timer\<close> below), but the timers do not stay at one: a
  status event starts a cycle of its own, and when two status events arrive before the
  first fetch has settled, each of the two cycles schedules its timer on completion.  The
  second \<open>setTimeout\<close> overwrites the stored handle of the first, which nothing clears:
  two timers are pending.
\<close>

theorem overlapping_cycles_two_timers:
  "loop_timers
     (run sample_externals
        [miio_status sample_status, miio_status sample_status,
         settles 0 Rejected, settles 1 Rejected] sample_bridge) = [1, 2]
   \<and> attributesUpdateTimeout
     (run sample_externals
        [miio_status sample_status, miio_status sample_status,
         settles 0 Rejected, settles 1 Rejected] sample_bridge) = Some 2"
  by (simp add: handler_defs sample_defs Let_def)

lemma cycle_outcome_schedules_one_timer:
  "\<not> client_connected b \<Longrightarrow>
     loop_timers (updateAttributesTopic b)
       = (case attributesUpdateTimeout b of None \<Rightarrow> loop_timers b
          | Some t \<Rightarrow> removeAll t (loop_timers b)) @ [loop_next_timer b]"
  "loop_timers (on_consumable Rejected b) = loop_timers b @ [loop_next_timer b]"
  "loop_timers (on_cleanSummary ext res Rejected b) = loop_timers b @ [loop_next_timer b]"
  "loop_timers (on_cleanSummary ext res (Fulfilled_summary res2) b)
     = loop_timers b @ [loop_next_timer b]"
  by (simp_all add: updateAttributesTopic_def on_consumable_def on_cleanSummary_def
      publish_attributes_def client_connected_def call_then_def call_def await_def emit_def
      clearTimeout_def setTimeout_updateAttributesTopic_def Let_def
      split: option.splits list.splits)

lemma cycle_in_flight_schedules_nothing:
  "client_connected b \<Longrightarrow>
     loop_timers (updateAttributesTopic b)
       = (case attributesUpdateTimeout b of None \<Rightarrow> loop_timers b
          | Some t \<Rightarrow> removeAll t (loop_timers b))"
  "loop_timers (on_consumable (Fulfilled_consumable res) b) = loop_timers b"
  "loop_timers (on_cleanRecord ext s b) = loop_timers b"
  by (simp_all add: updateAttributesTopic_def on_consumable_def on_cleanRecord_def
      client_connected_def call_then_def call_def await_def emit_def
      clearTimeout_def Let_def split: option.splits settlement.splits)

text \<open>
  What holds of every cycle whose summary lists a run: when the \<open>then\<close> handler of
  \<open>getCleanSummary\<close> has returned, the record fetch it started is pending, the cached
  record is the one from before, and that cached record (or \<open>{}\<close>) is what the snapshot
  holds.  A failed record fetch is logged and leaves the cache as it is.
\<close>

lemma record_fetch_outlives_handler:
  assumes "summary_last_runs res2 = r # rs" and "fresh_promises b"
  shows "map_of (loop_pending (on_cleanSummary ext res (Fulfilled_summary res2) b))
           (loop_next_promise b) = Some then_getCleanRecord"
    and "last_run_stats (on_cleanSummary ext res (Fulfilled_summary res2) b) = last_run_stats b"
    and "map_of (attributes_response ext res res2 b) ''last_run_stats''
           = Some (if truthy (last_run_stats b) then last_run_stats b else JObj [])"
proof -
  have pending: "map_of (loop_pending (call_then (getCleanRecord r) then_getCleanRecord b))
      (loop_next_promise b) = Some then_getCleanRecord"
    using assms(2) by (rule pending_call_then)
  show "map_of (loop_pending (on_cleanSummary ext res (Fulfilled_summary res2) b))
           (loop_next_promise b) = Some then_getCleanRecord"
    using pending assms(1)
    by (auto simp: on_cleanSummary_def publish_attributes_def Let_def
        split: option.splits)
  show "last_run_stats (on_cleanSummary ext res (Fulfilled_summary res2) b) = last_run_stats b"
    using assms(1)
    by (auto simp: on_cleanSummary_def publish_attributes_def Let_def
        split: option.splits)
  show "map_of (attributes_response ext res res2 b) ''last_run_stats''
           = Some (if truthy (last_run_stats b) then last_run_stats b else JObj [])"
    by (simp add: attributes_response_def)
qed

lemma failed_record_fetch_keeps_cache:
  "last_run_stats (on_cleanRecord ext Rejected b) = last_run_stats b"
  "new_effects b (on_cleanRecord ext Rejected b) = [Logger_error]"
  by (simp_all add: on_cleanRecord_def new_effects_def)

text \<open>
  Claim C9.  The first cycle of a client whose device has a run in its history: when the
  \<open>then\<close> handler of \<open>getCleanSummary\<close> returns, the snapshot is assembled and published
  with an empty \<open>last_run_stats\<close> while the record fetch it started is still pending; the
  record, when it arrives, is cached and changes neither the stored snapshot nor what was
  published.
\<close>

theorem snapshot_assembled_before_record_settles:
  "loop_pending (run sample_externals first_cycle sample_bridge) = [(2, then_getCleanRecord)]
   \<and> get_prop (last_attributes (run sample_externals first_cycle sample_bridge))
        ''last_run_stats'' = JObj []
   \<and> length (published_to (topics_attributes sample_config)
        (run sample_externals first_cycle sample_bridge)) = 1
   \<and> last_run_stats
        (run sample_externals (first_cycle @ [settles 2 (Fulfilled_record sample_record)])
           sample_bridge) = last_run_stats_of sample_externals sample_record
   \<and> last_attributes
        (run sample_externals (first_cycle @ [settles 2 (Fulfilled_record sample_record)])
           sample_bridge) = last_attributes (run sample_externals first_cycle sample_bridge)
   \<and> published_to (topics_attributes sample_config)
        (run sample_externals (first_cycle @ [settles 2 (Fulfilled_record sample_record)])
           sample_bridge)
       = published_to (topics_attributes sample_config)
           (run sample_externals first_cycle sample_bridge)"
  by (simp add: first_cycle_def handler_defs sample_defs Let_def published_to_def
       topics_attributes_def JSON_stringify.simps)

text \<open>The \<open>then\<close> handler of \<open>getCleanSummary\<close>, with the snapshot named: the state in
  which the snapshot is assembled differs from the handler's initial state only by the
  started record fetch.\<close>

lemma on_cleanSummary_Fulfilled:
  assumes "client b \<noteq> None"
  shows "\<exists>b1. trace b1 = trace b @ (case summary_last_runs res2 of [] \<Rightarrow> []
                                      | r # rs \<Rightarrow> [Vacuum (getCleanRecord r)])
      \<and> config b1 = config b \<and> client b1 = client b
      \<and> last_attributes b1 = last_attributes b
      \<and> on_cleanSummary ext res (Fulfilled_summary res2) b
        = setTimeout_updateAttributesTopic
            (if JSON_stringify (JObj (attributes_response ext res res2 b))
                  = JSON_stringify (last_attributes b) then b1
             else (emit (Publish (topics_attributes (config b))
                      (JSON_stringify (JObj (attributes_response ext res res2 b)))
                      True (qos (config b))) b1)
                  \<lparr>last_attributes := JObj (attributes_response ext res res2 b)\<rparr>)"
proof (cases "summary_last_runs res2")
  case Nil
  with assms show ?thesis
    by (intro exI [of _ b]) (auto simp: on_cleanSummary_def publish_attributes_def)
next
  case (Cons r rs)
  with assms show ?thesis
    by (intro exI [of _ "call_then (getCleanRecord r) then_getCleanRecord b"])
      (auto simp: on_cleanSummary_def publish_attributes_def)
qed

lemma published_attributes_on_cleanSummary:
  assumes "client b \<noteq> None"
  shows "published_to (topics_attributes (config b))
           (on_cleanSummary ext res (Fulfilled_summary res2) b)
         = published_to (topics_attributes (config b)) b
           @ (if JSON_stringify (JObj (attributes_response ext res res2 b))
                 = JSON_stringify (last_attributes b) then []
              else [JSON_stringify (JObj (attributes_response ext res res2 b))])"
    and "last_attributes (on_cleanSummary ext res (Fulfilled_summary res2) b)
         = (if JSON_stringify (JObj (attributes_response ext res res2 b))
                 = JSON_stringify (last_attributes b) then last_attributes b
            else JObj (attributes_response ext res res2 b))"
    and "client (on_cleanSummary ext res (Fulfilled_summary res2) b) = client b"
    and "config (on_cleanSummary ext res (Fulfilled_summary res2) b) = config b"
proof -
  obtain b1 where b1: "trace b1 = trace b @ (case summary_last_runs res2 of [] \<Rightarrow> []
                                      | r # rs \<Rightarrow> [Vacuum (getCleanRecord r)])"
      "config b1 = config b" "client b1 = client b" "last_attributes b1 = last_attributes b"
      "on_cleanSummary ext res (Fulfilled_summary res2) b
        = setTimeout_updateAttributesTopic
            (if JSON_stringify (JObj (attributes_response ext res res2 b))
                  = JSON_stringify (last_attributes b) then b1
             else (emit (Publish (topics_attributes (config b))
                      (JSON_stringify (JObj (attributes_response ext res res2 b)))
                      True (qos (config b))) b1)
                  \<lparr>last_attributes := JObj (attributes_response ext res res2 b)\<rparr>)"
    using on_cleanSummary_Fulfilled [OF assms] by blast
  have pub: "published_to (topics_attributes (config b)) b1
      = published_to (topics_attributes (config b)) b"
    using b1(1) by (simp add: published_to_def split: list.splits)
  show "published_to (topics_attributes (config b))
           (on_cleanSummary ext res (Fulfilled_summary res2) b)
         = published_to (topics_attributes (config b)) b
           @ (if JSON_stringify (JObj (attributes_response ext res res2 b))
                 = JSON_stringify (last_attributes b) then []
              else [JSON_stringify (JObj (attributes_response ext res res2 b))])"
    by (simp add: b1(5) pub)
  show "last_attributes (on_cleanSummary ext res (Fulfilled_summary res2) b)
         = (if JSON_stringify (JObj (attributes_response ext res res2 b))
                 = JSON_stringify (last_attributes b) then last_attributes b
            else JObj (attributes_response ext res res2 b))"
    by (simp add: b1(4,5))
  show "client (on_cleanSummary ext res (Fulfilled_summary res2) b) = client b"
    by (simp add: b1(3,5))
  show "config (on_cleanSummary ext res (Fulfilled_summary res2) b) = config b"
    by (simp add: b1(2,5))
qed

lemma retained_on_cleanSummary:
  assumes "client b \<noteq> None"
    and "JSON_stringify (JObj (attributes_response ext res res2 b))
           \<noteq> JSON_stringify (last_attributes b)"
  shows "last (new_effects b (on_cleanSummary ext res (Fulfilled_summary res2) b))
     = Publish (topics_attributes (config b))
         (JSON_stringify (JObj (attributes_response ext res res2 b))) True (qos (config b))"
proof -
  obtain b1 where b1: "trace b1 = trace b @ (case summary_last_runs res2 of [] \<Rightarrow> []
                                      | r # rs \<Rightarrow> [Vacuum (getCleanRecord r)])"
      "on_cleanSummary ext res (Fulfilled_summary res2) b
        = setTimeout_updateAttributesTopic
            (if JSON_stringify (JObj (attributes_response ext res res2 b))
                  = JSON_stringify (last_attributes b) then b1
             else (emit (Publish (topics_attributes (config b))
                      (JSON_stringify (JObj (attributes_response ext res res2 b)))
                      True (qos (config b))) b1)
                  \<lparr>last_attributes := JObj (attributes_response ext res res2 b)\<rparr>)"
    using on_cleanSummary_Fulfilled [OF assms(1)] by blast
  show ?thesis
    using assms(2) by (simp add: b1 new_effects_def)
qed

text \<open>
  Claim C3, amended.  At the end of a cycle the assembled snapshot is compared with the
  last published one by equality of their \<open>JSON.stringify\<close> serialisations, which is
  sensitive to the order of the fields.  When the serialisations are equal nothing is
  published and the stored snapshot stays; when they differ the snapshot is published
  retained to the attributes topic and replaces the stored one.  So a next cycle that
  assembles the same snapshot publishes nothing.
\<close>

theorem snapshot_compared_by_serialisation:
  assumes "client b \<noteq> None"
  shows
   "(JSON_stringify (JObj (attributes_response ext res res2 b))
       = JSON_stringify (last_attributes b) \<longrightarrow>
       published_to (topics_attributes (config b))
           (on_cleanSummary ext res (Fulfilled_summary res2) b)
         = published_to (topics_attributes (config b)) b
       \<and> last_attributes (on_cleanSummary ext res (Fulfilled_summary res2) b)
         = last_attributes b)
    \<and> (JSON_stringify (JObj (attributes_response ext res res2 b))
       \<noteq> JSON_stringify (last_attributes b) \<longrightarrow>
       published_to (topics_attributes (config b))
           (on_cleanSummary ext res (Fulfilled_summary res2) b)
         = published_to (topics_attributes (config b)) b
           @ [JSON_stringify (JObj (attributes_response ext res res2 b))]
       \<and> last (new_effects b (on_cleanSummary ext res (Fulfilled_summary res2) b))
         = Publish (topics_attributes (config b))
             (JSON_stringify (JObj (attributes_response ext res res2 b))) True (qos (config b))
       \<and> last_attributes (on_cleanSummary ext res (Fulfilled_summary res2) b)
         = JObj (attributes_response ext res res2 b))
    \<and> (attributes_response ext res' res2' (on_cleanSummary ext res (Fulfilled_summary res2) b)
         = attributes_response ext res res2 b \<longrightarrow>
       published_to (topics_attributes (config b))
           (on_cleanSummary ext res' (Fulfilled_summary res2')
              (on_cleanSummary ext res (Fulfilled_summary res2) b))
         = published_to (topics_attributes (config b))
             (on_cleanSummary ext res (Fulfilled_summary res2) b))"
proof -
  let ?b' = "on_cleanSummary ext res (Fulfilled_summary res2) b"
  have b': "client ?b' \<noteq> None" "config ?b' = config b"
    using assms by (simp_all add: published_attributes_on_cleanSummary)
  have stored: "JSON_stringify (last_attributes ?b')
      = JSON_stringify (JObj (attributes_response ext res res2 b))"
    using assms by (simp add: published_attributes_on_cleanSummary)
  have again: "published_to (topics_attributes (config b))
           (on_cleanSummary ext res' (Fulfilled_summary res2') ?b')
         = published_to (topics_attributes (config b)) ?b'"
    if "attributes_response ext res' res2' ?b' = attributes_response ext res res2 b"
    using published_attributes_on_cleanSummary(1) [OF b'(1), of ext res' res2'] that stored
    by (simp add: b'(2))
  show ?thesis
    using assms again
    by (simp add: published_attributes_on_cleanSummary retained_on_cleanSummary)
qed

theorem snapshot_compared_by_serialisation_witness:
  "client sample_bridge \<noteq> None
   \<and> JSON_stringify (JObj (attributes_response sample_externals sample_consumable
          empty_summary sample_bridge)) \<noteq> JSON_stringify (last_attributes sample_bridge)
   \<and> published_to (topics_attributes (config sample_bridge))
         (on_cleanSummary sample_externals sample_consumable (Fulfilled_summary empty_summary)
            sample_bridge)
       = published_to (topics_attributes (config sample_bridge)) sample_bridge
         @ [JSON_stringify (JObj (attributes_response sample_externals sample_consumable
              empty_summary sample_bridge))]
   \<and> published_to (topics_attributes (config sample_bridge))
         (on_cleanSummary sample_externals sample_consumable (Fulfilled_summary empty_summary)
            (on_cleanSummary sample_externals sample_consumable
               (Fulfilled_summary empty_summary) sample_bridge))
       = published_to (topics_attributes (config sample_bridge))
           (on_cleanSummary sample_externals sample_consumable
              (Fulfilled_summary empty_summary) sample_bridge)"
proof -
  have handle: "client sample_bridge \<noteq> None"
    by (simp add: sample_bridge_def)
  have differs: "JSON_stringify (JObj (attributes_response sample_externals sample_consumable
          empty_summary sample_bridge)) \<noteq> JSON_stringify (last_attributes sample_bridge)"
    by (simp add: JSON_stringify.simps attributes_response_def sample_bridge_def
        new_bridge_def)
  have same: "attributes_response sample_externals sample_consumable empty_summary
        (on_cleanSummary sample_externals sample_consumable (Fulfilled_summary empty_summary)
            sample_bridge)
      = attributes_response sample_externals sample_consumable empty_summary sample_bridge"
    by (simp add: attributes_response_def on_cleanSummary_def publish_attributes_def
        empty_summary_def sample_bridge_def new_bridge_def emit_def
        setTimeout_updateAttributesTopic_def Let_def)
  show ?thesis
    using handle differs same
      snapshot_compared_by_serialisation [OF handle, of sample_externals sample_consumable
        empty_summary sample_consumable empty_summary]
    by simp
qed

text \<open>
  Two cycles whose snapshots differ only in the order of the two fields of the zone
  status: the second snapshot equals the published first one by the spec's
  order-insensitive equality, and it is published all the same.
\<close>

theorem snapshot_field_order_counterexample:
  "spec_structural_equal
      (last_attributes (run sample_externals cycle_ab sample_bridge))
      (last_attributes (run sample_externals (cycle_ab @ cycle_ba) sample_bridge))
   \<and> length (published_to (topics_attributes sample_config)
        (run sample_externals cycle_ab sample_bridge)) = 1
   \<and> length (published_to (topics_attributes sample_config)
        (run sample_externals (cycle_ab @ cycle_ba) sample_bridge)) = 2"
  by (simp add: cycle_ab_def cycle_ba_def zone_status_ab_def zone_status_ba_def
       handler_defs sample_defs Let_def published_to_def
       topics_attributes_def JSON_stringify.simps quote_def escape_char_def show_int_def
       show_nat.simps digit_char_def)

section \<open>The connection manager\<close>

text \<open>No handler but the library sets or replaces the connection handle.\<close>

lemma client_primitives [simp]:
  "client (call c b) = client b"
  "client (await k b) = client b"
  "client (clearTimeout t b) = client b"
  by (simp_all add: call_def await_def clearTimeout_def emit_def)

lemma client_updateAttributesTopic [simp]:
  "client (updateAttributesTopic b) = client b"
  by (simp add: updateAttributesTopic_def Let_def split: option.splits)

lemma client_publish_attributes:
  "publish_attributes r b = Inr b2 \<Longrightarrow> client b2 = client b"
  by (auto simp: publish_attributes_def split: if_splits option.splits)

lemma client_on_cleanSummary [simp]:
  "client (on_cleanSummary ext res s b) = client b"
proof (cases s)
  case (Fulfilled_summary res2)
  define b1 where "b1 = (case summary_last_runs res2 of [] \<Rightarrow> b
      | r # rs \<Rightarrow> call_then (getCleanRecord r) then_getCleanRecord b)"
  have b1: "client b1 = client b"
    by (simp add: b1_def split: list.splits)
  show ?thesis
  proof (cases "publish_attributes (JObj (attributes_response ext res res2 b1)) b1")
    case (Inl e)
    then show ?thesis
      using b1 by (simp add: on_cleanSummary_def Fulfilled_summary b1_def [symmetric])
  next
    case (Inr b2)
    then show ?thesis
      using b1 client_publish_attributes [OF Inr]
      by (simp add: on_cleanSummary_def Fulfilled_summary b1_def [symmetric])
  qed
qed (simp_all add: on_cleanSummary_def)

lemma client_resume [simp]: "client (resume ext k s b) = client b"
  by (cases k)
    (simp_all add: resume_def on_consumable_def on_cleanRecord_def on_currentStatus_def
      on_stopped_def on_zones_started_def on_subscribed_def split: settlement.splits)

lemma client_handleCustomCommand_msg [simp]:
  "client (handleCustomCommand_msg msg b) = client b"
proof (cases "get_prop msg ''zone_ids''")
  case (JArr zones)
  then show ?thesis
    by (simp add: handleCustomCommand_msg_def split: option.splits)
qed (simp_all add: handleCustomCommand_msg_def split: option.splits)

lemma client_on_message [simp]: "client (on_message ext topic msg b) = client b"
  by (simp add: on_message_def handleCustomCommand_def handleFanSpeedRequest_def
      handleCommand_def split: option.splits)

lemma client_step:
  "client (step ext ev b) =
     (case ev of
        client_flags c r \<Rightarrow>
          (case client b of None \<Rightarrow> None
           | Some h \<Rightarrow> Some (h\<lparr>connected := c, reconnecting := r\<rparr>))
      | _ \<Rightarrow> client b)"
proof (cases ev)
  case (miio_status sd)
  then show ?thesis
    by (simp add: step_def updateAttributesTopicOnEvent_def updateStatusTopic_def)
next
  case (valetudo_map parsed)
  then show ?thesis
    by (simp add: step_def updateMapDataTopic_def)
next
  case client_connect
  then show ?thesis
    by (simp add: step_def on_connect_def)
next
  case (client_message topic msg)
  then show ?thesis
    by (simp add: step_def)
next
  case (client_flags c r)
  then show ?thesis
    by (simp add: step_def split: option.splits)
next
  case (timer_fires t)
  then show ?thesis
    by (simp add: step_def)
next
  case (settles p s)
  then show ?thesis
    by (simp add: step_def split: option.splits)
next
  case (zone_cleaning_status z)
  then show ?thesis
    by (simp add: step_def)
qed

text \<open>A handle that the guard of \<open>connect\<close> refuses.\<close>

lemma busy_step:
  assumes "\<exists>h. client b = Some h \<and> \<not> handle_idle h" and "\<not> reports_idle ev"
  shows "\<exists>h. client (step ext ev b) = Some h \<and> \<not> handle_idle h"
  using assms
  by (cases ev) (auto simp: client_step reports_idle_def handle_idle_def)

lemma busy_run:
  assumes "\<exists>h. client b = Some h \<and> \<not> handle_idle h"
    and "list_all (\<lambda>ev. \<not> reports_idle ev) evs"
  shows "\<exists>h. client (run ext evs b) = Some h \<and> \<not> handle_idle h"
  using assms unfolding run_def
proof (induction evs arbitrary: b)
  case Nil
  then show ?case by simp
next
  case (Cons ev evs)
  from Cons.prems have "\<exists>h. client (step ext ev b) = Some h \<and> \<not> handle_idle h"
    by (intro busy_step) simp_all
  with Cons.prems show ?case
    by (simp add: Cons.IH)
qed

lemma connect_busy:
  "\<exists>h. client b = Some h \<and> \<not> handle_idle h \<Longrightarrow> connect ext b = Inr b"
  by (auto simp: connect_def connect_guard_def handle_idle_def)

lemma connect_leaves_busy:
  assumes "\<not> handle_idle (mqtt_connect ext)" and "connect ext b = Inr b'"
  shows "\<exists>h. client b' = Some h \<and> \<not> handle_idle h"
  using assms
  by (auto simp: connect_def connect_guard_def handle_idle_def
      split: if_splits option.splits)

text \<open>
  Claim C7.  A call of \<open>connect\<close> does something only if there is no connection handle or
  the handle reports both disconnected and not reconnecting; while the handle reports
  anything else, in particular connected or reconnecting, the call changes nothing.  Under
  the guard, and with no CA file to read, the call makes exactly one connect attempt and
  stores the new handle.  Consequently, when the library's new handle does not itself
  report both disconnected and not reconnecting, a call of \<open>connect\<close> that follows a call
  of \<open>connect\<close>, after any events during which the library never sets the flags to
  disconnected and not reconnecting, changes nothing: no second connect attempt, no
  subscription, no publish.
\<close>

theorem connect_no_duplicate_attempt:
  "(connect ext b \<noteq> Inr b \<longrightarrow>
      client b = None
      \<or> (\<exists>h. client b = Some h \<and> connected h = JBool False \<and> reconnecting h = JBool False))
   \<and> ((\<exists>h. client b = Some h
             \<and> (connected h \<noteq> JBool False \<or> reconnecting h \<noteq> JBool False))
        \<longrightarrow> connect ext b = Inr b)
   \<and> ((client b = None
         \<or> (\<exists>h. client b = Some h \<and> connected h = JBool False \<and> reconnecting h = JBool False))
        \<and> caPath (config b) = [] \<longrightarrow>
        (\<exists>b'. connect ext b = Inr b'
              \<and> new_effects b b' = [Mqtt_connect (brokerURL (config b)) None]
              \<and> client b' = Some (mqtt_connect ext)))
   \<and> (\<not> handle_idle (mqtt_connect ext) \<and> list_all (\<lambda>ev. \<not> reports_idle ev) evs \<longrightarrow>
        (\<forall>b'. connect ext b = Inr b' \<longrightarrow>
           connect ext (run ext evs b') = Inr (run ext evs b')))"
proof -
  have guard: "(connect ext b \<noteq> Inr b \<longrightarrow>
      client b = None
      \<or> (\<exists>h. client b = Some h \<and> connected h = JBool False \<and> reconnecting h = JBool False))
   \<and> ((\<exists>h. client b = Some h
             \<and> (connected h \<noteq> JBool False \<or> reconnecting h \<noteq> JBool False))
        \<longrightarrow> connect ext b = Inr b)
   \<and> ((client b = None
         \<or> (\<exists>h. client b = Some h \<and> connected h = JBool False \<and> reconnecting h = JBool False))
        \<and> caPath (config b) = [] \<longrightarrow>
        (\<exists>b'. connect ext b = Inr b'
              \<and> new_effects b b' = [Mqtt_connect (brokerURL (config b)) None]
              \<and> client b' = Some (mqtt_connect ext)))"
    by (auto simp: connect_def connect_guard_def new_effects_def emit_def split: option.splits)
  have again: "connect ext (run ext evs b') = Inr (run ext evs b')"
    if fresh: "\<not> handle_idle (mqtt_connect ext)"
      and evs: "list_all (\<lambda>ev. \<not> reports_idle ev) evs"
      and first: "connect ext b = Inr b'" for b'
  proof -
    have "\<exists>h. client b' = Some h \<and> \<not> handle_idle h"
      using fresh first by (rule connect_leaves_busy)
    then have "\<exists>h. client (run ext evs b') = Some h \<and> \<not> handle_idle h"
      using evs by (rule busy_run)
    then show ?thesis
      by (rule connect_busy)
  qed
  show ?thesis
    using guard again by blast
qed

lemma connect_new_bridge:
  "connect sample_externals (new_bridge sample_config sample_zones []) = Inr connecting_bridge"
  by (simp add: connect_def connect_guard_def new_bridge_def sample_config_def emit_def
      sample_externals_def connecting_bridge_def)

lemma connect_attempts_in_flight:
  "connect_attempts (run sample_externals in_flight_events connecting_bridge) = 1"
  by (simp add: connect_attempts_def in_flight_events_def connecting_bridge_def run_def
      step_def new_bridge_def sample_config_def sample_externals_def
      updateAttributesTopicOnEvent_def updateAttributesTopic_def updateStatusTopic_def
      client_connected_def setTimeout_updateAttributesTopic_def on_connect_def await_def
      call_then_def call_def emit_def clearTimeout_def Let_def)

theorem connect_no_duplicate_attempt_witness:
  "connect sample_externals (new_bridge sample_config sample_zones []) = Inr connecting_bridge
   \<and> connecting_bridge \<noteq> new_bridge sample_config sample_zones []
   \<and> client (new_bridge sample_config sample_zones []) = None
   \<and> caPath (config (new_bridge sample_config sample_zones [])) = []
   \<and> new_effects (new_bridge sample_config sample_zones []) connecting_bridge
        = [Mqtt_connect (brokerURL (config (new_bridge sample_config sample_zones []))) None]
   \<and> client connecting_bridge = Some (mqtt_connect sample_externals)
   \<and> \<not> handle_idle (mqtt_connect sample_externals)
   \<and> list_all (\<lambda>ev. \<not> reports_idle ev) in_flight_events
   \<and> connect sample_externals connecting_bridge = Inr connecting_bridge
   \<and> connect sample_externals (run sample_externals in_flight_events connecting_bridge)
        = Inr (run sample_externals in_flight_events connecting_bridge)
   \<and> connect_attempts (run sample_externals in_flight_events connecting_bridge) = 1
   \<and> client sample_bridge = Some \<lparr>connected = JBool True, reconnecting = JBool False\<rparr>
   \<and> connect sample_externals sample_bridge = Inr sample_bridge
   \<and> connect sample_externals
       (sample_bridge\<lparr>client := Some \<lparr>connected = JBool False, reconnecting = JBool True\<rparr>\<rparr>)
      = Inr (sample_bridge\<lparr>client := Some \<lparr>connected = JBool False, reconnecting = JBool True\<rparr>\<rparr>)"
proof -
  have changed: "connecting_bridge \<noteq> new_bridge sample_config sample_zones []"
    by (simp add: connecting_bridge_def new_bridge_def)
  have fresh: "client (new_bridge sample_config sample_zones []) = None"
      "caPath (config (new_bridge sample_config sample_zones [])) = []"
    by (simp_all add: new_bridge_def sample_config_def)
  have library: "\<not> handle_idle (mqtt_connect sample_externals)"
    by (simp add: handle_idle_def sample_externals_def)
  have events: "list_all (\<lambda>ev. \<not> reports_idle ev) in_flight_events"
    by (simp add: in_flight_events_def reports_idle_def)
  have handle: "client sample_bridge = Some \<lparr>connected = JBool True, reconnecting = JBool False\<rparr>"
    by (simp add: sample_bridge_def)
  show ?thesis
    using connect_new_bridge changed fresh library events handle connect_attempts_in_flight
      connect_no_duplicate_attempt [of sample_externals "new_bridge sample_config sample_zones []"
        in_flight_events]
      connect_no_duplicate_attempt [of sample_externals "new_bridge sample_config sample_zones []"
        "[]"]
      connect_no_duplicate_attempt [of sample_externals sample_bridge "[]"]
      connect_no_duplicate_attempt [of sample_externals
        "sample_bridge\<lparr>client := Some \<lparr>connected = JBool False, reconnecting = JBool True\<rparr>\<rparr>"
        "[]"]
    by (simp add: run_def)
qed

text \<open>The library's part: with a handle that is born disconnected and not reconnecting, a
  second call right after the first makes a second attempt.\<close>

lemma connect_twice_with_idle_fresh_handle:
  "map_sum id connect_attempts
     (case connect (sample_externals\<lparr>mqtt_connect :=
               \<lparr>connected = JBool False, reconnecting = JBool False\<rparr>\<rparr>)
             (new_bridge sample_config sample_zones []) of
        Inl e \<Rightarrow> Inl e
      | Inr b' \<Rightarrow> connect (sample_externals\<lparr>mqtt_connect :=
               \<lparr>connected = JBool False, reconnecting = JBool False\<rparr>\<rparr>) b') = Inr 2"
  by (simp add: connect_def connect_guard_def new_bridge_def sample_config_def emit_def
      sample_externals_def connect_attempts_def)

section \<open>The codec\<close>

lemma length_header_of [simp]: "length (header_of response) = 32"
  by (simp add: header_of_def)

text \<open>
  Claim C10.  Whenever \<open>handleResponse\<close> returns, at most one of \<open>msg\<close> and \<open>token\<close> is
  not \<open>null\<close>: \<open>token\<close> only when the checksum differs from the digest and the payload is
  empty, \<open>msg\<close> only when the checksum is the digest and the payload is not empty.  When
  the checksum differs and the payload is not empty, it returns with both \<open>null\<close> and the
  error logged.
\<close>

theorem handleResponse_msg_token_exclusive:
  "(\<forall>r logged. handleResponse cx c response = Inr (r, logged) \<longrightarrow>
       \<not> (response_msg r \<noteq> JNull \<and> response_token r \<noteq> None)
       \<and> (response_token r \<noteq> None \<longrightarrow>
            checksum_of response \<noteq> digest_of cx c response \<and> encrypted_of response = [])
       \<and> (response_msg r \<noteq> JNull \<longrightarrow>
            checksum_of response = digest_of cx c response \<and> encrypted_of response \<noteq> []))
   \<and> (checksum_of response \<noteq> digest_of cx c response \<and> encrypted_of response \<noteq> [] \<longrightarrow>
        (\<exists>r. handleResponse cx c response = Inr (r, [Logger_error])
             \<and> response_msg r = JNull \<and> response_token r = None))"
  by (auto simp: handleResponse_def Let_def split: if_splits option.splits)

lemma handleResponse_returns:
  "(\<exists>r logged. handleResponse cx c response = Inr (r, logged)) \<longleftrightarrow>
     checksum_of response \<noteq> digest_of cx c response \<or> encrypted_of response = []
     \<or> (\<exists>plain m. aes_128_cbc_decipher cx (tokenKey c) (tokenIV c) (encrypted_of response) = Some plain
           \<and> codec_JSON_parse cx (strip_control (buffer_toString cx plain)) = Some m)"
  by (auto simp: handleResponse_def Let_def split: if_splits option.splits)

lemma char_of_braces: "char_of (123 :: nat) = CHR ''{''" "char_of (125 :: nat) = CHR ''}''"
  by code_simp+

lemma sample_packets:
  "handleResponse sample_codec_externals sample_codec packet_valid
     = Inr (\<lparr>response_stamp = 0, response_deviceId = 0, response_msg = JObj [],
             response_token = None\<rparr>, [])"
  "handleResponse sample_codec_externals sample_codec packet_token
     = Inr (\<lparr>response_stamp = 0, response_deviceId = 0, response_msg = JNull,
             response_token = Some (replicate 16 1)\<rparr>, [])"
  "handleResponse sample_codec_externals sample_codec packet_invalid
     = Inr (\<lparr>response_stamp = 0, response_deviceId = 0, response_msg = JNull,
             response_token = None\<rparr>, [Logger_error])"
  by (simp_all add: handleResponse_def Let_def header_of_def encrypted_of_def digest_of_def
      checksum_of_def readUInt32BE_def strip_control_def sample_codec_externals_def
      sample_codec_def setToken_def packet_valid_def packet_token_def packet_invalid_def
      nth_append char_of_braces)

theorem handleResponse_msg_token_exclusive_witness:
  "handleResponse sample_codec_externals sample_codec packet_valid
     = Inr (\<lparr>response_stamp = 0, response_deviceId = 0, response_msg = JObj [],
             response_token = None\<rparr>, [])
   \<and> checksum_of packet_valid = digest_of sample_codec_externals sample_codec packet_valid
   \<and> encrypted_of packet_valid \<noteq> []
   \<and> handleResponse sample_codec_externals sample_codec packet_token
     = Inr (\<lparr>response_stamp = 0, response_deviceId = 0, response_msg = JNull,
             response_token = Some (replicate 16 1)\<rparr>, [])
   \<and> checksum_of packet_token \<noteq> digest_of sample_codec_externals sample_codec packet_token
   \<and> encrypted_of packet_token = []
   \<and> checksum_of packet_invalid \<noteq> digest_of sample_codec_externals sample_codec packet_invalid
   \<and> encrypted_of packet_invalid \<noteq> []
   \<and> handleResponse sample_codec_externals sample_codec packet_invalid
     = Inr (\<lparr>response_stamp = 0, response_deviceId = 0, response_msg = JNull,
             response_token = None\<rparr>, [Logger_error])"
proof -
  have invalid: "checksum_of packet_invalid
        \<noteq> digest_of sample_codec_externals sample_codec packet_invalid"
      "encrypted_of packet_invalid \<noteq> []"
    by (simp_all add: header_of_def encrypted_of_def digest_of_def checksum_of_def
        sample_codec_externals_def packet_invalid_def)
  show ?thesis
    using sample_packets invalid
      handleResponse_msg_token_exclusive [of sample_codec_externals sample_codec packet_valid]
      handleResponse_msg_token_exclusive [of sample_codec_externals sample_codec packet_token]
      handleResponse_msg_token_exclusive [of sample_codec_externals sample_codec packet_invalid]
    by auto
qed

end
